theory Spec2Isabelle
  imports Complex_Main
begin

section \<open>Strings\<close>

text \<open>
  A JavaScript string is modelled as a \<^typ>\<open>string\<close>: one \<^typ>\<open>char\<close> per code unit,
  for code units below 256. The helpers below are the string primitives of the
  runtime that the detectors call (\<open>trim\<close>, \<open>split\<close>, \<open>join\<close>, \<open>startsWith\<close>,
  \<open>toLowerCase\<close>) and the character classes of the regular expressions they use.
\<close>

definition isSpace :: "char \<Rightarrow> bool" where
  \<comment> \<open>\<open>\s\<close> and the characters \<open>trim\<close> removes: TAB, LF, VT, FF, CR, space, NBSP\<close>
  "isSpace c = (c \<in> set [CHR 0x09, CHR 0x0A, CHR 0x0B, CHR 0x0C, CHR 0x0D, CHR 0x20, CHR 0xA0])"

definition isUpper :: "char \<Rightarrow> bool" where
  "isUpper c = (c \<in> set ''ABCDEFGHIJKLMNOPQRSTUVWXYZ'')"

definition isLower :: "char \<Rightarrow> bool" where
  "isLower c = (c \<in> set ''abcdefghijklmnopqrstuvwxyz'')"

definition isDigit :: "char \<Rightarrow> bool" where
  "isDigit c = (c \<in> set ''0123456789'')"

definition isWordChar :: "char \<Rightarrow> bool" where
  \<comment> \<open>\<open>\w\<close>, that is \<open>[A-Za-z0-9_]\<close>\<close>
  "isWordChar c = (isUpper c \<or> isLower c \<or> isDigit c \<or> c = CHR ''_'')"

definition trim :: "string \<Rightarrow> string" where
  "trim s = rev (dropWhile isSpace (rev (dropWhile isSpace s)))"

definition startsWith :: "string \<Rightarrow> string \<Rightarrow> bool" where
  "startsWith s p = (take (length p) s = p)"

fun join :: "string \<Rightarrow> string list \<Rightarrow> string" where
  "join sep [] = []"
| "join sep [x] = x"
| "join sep (x # y # ys) = x @ sep @ join sep (y # ys)"

fun splitChar :: "char \<Rightarrow> string \<Rightarrow> string list" where
  \<comment> \<open>\<open>s.split(c)\<close> for a one-character separator: never the empty list\<close>
  "splitChar sep [] = [[]]"
| "splitChar sep (c # cs) =
     (if c = sep then [] # splitChar sep cs
      else (case splitChar sep cs of
              [] \<Rightarrow> [[c]]
            | p # ps \<Rightarrow> (c # p) # ps))"

fun splitSpaces :: "bool \<Rightarrow> string \<Rightarrow> string \<Rightarrow> string list" where
  \<comment> \<open>\<open>s.split(/\s+/)\<close>: the flag says that the previous character was white space,
      the second argument is the piece being read\<close>
  "splitSpaces inGap cur [] = [cur]"
| "splitSpaces inGap cur (c # cs) =
     (if isSpace c then
        (if inGap then splitSpaces True cur cs else cur # splitSpaces True [] cs)
      else splitSpaces False (cur @ [c]) cs)"

definition lowerChar :: "char \<Rightarrow> char" where
  \<comment> \<open>\<open>toLowerCase\<close> on one code unit below 256: A-Z, and the Latin-1 capitals
      0xC0-0xDE except the multiplication sign 0xD7\<close>
  "lowerChar c =
     (let n = (of_char c :: nat) in
      if (65 \<le> n \<and> n \<le> 90) \<or> (192 \<le> n \<and> n \<le> 222 \<and> n \<noteq> 215)
      then char_of (n + 32) else c)"

definition toLowerCase :: "string \<Rightarrow> string" where
  "toLowerCase s = map lowerChar s"

section \<open>Exceptions\<close>

text \<open>
  A function that can throw returns \<open>error + 'a\<close>: \<open>Inl\<close> is the exception that
  leaves the function, \<open>Inr\<close> the value it returns.
\<close>

datatype error =
    TypeError             \<comment> \<open>a method called on \<open>undefined\<close>\<close>
  | Error string          \<comment> \<open>\<open>throw new Error(message)\<close>\<close>

fun mapE :: "('a \<Rightarrow> error + 'b) \<Rightarrow> 'a list \<Rightarrow> error + 'b list" where
  \<comment> \<open>\<open>xs.map(f)\<close> for an \<open>f\<close> that can throw: the first exception ends the map\<close>
  "mapE f [] = Inr []"
| "mapE f (x # xs) =
     (case f x of
        Inl e \<Rightarrow> Inl e
      | Inr y \<Rightarrow> (case mapE f xs of Inl e \<Rightarrow> Inl e | Inr ys \<Rightarrow> Inr (y # ys)))"

fun foldE :: "('s \<Rightarrow> 'a \<Rightarrow> error + 's) \<Rightarrow> 'a list \<Rightarrow> 's \<Rightarrow> error + 's" where
  \<comment> \<open>a \<open>for ... of\<close> loop over \<open>xs\<close> whose body can throw\<close>
  "foldE f [] s = Inr s"
| "foldE f (x # xs) s = (case f s x of Inl e \<Rightarrow> Inl e | Inr s' \<Rightarrow> foldE f xs s')"

section \<open>Severity (src/utils/severity.js)\<close>

definition normalize :: "string \<Rightarrow> string" where
  "normalize v =
     (if v = [] then []
      else (let l = toLowerCase v in
            if l = ''critical'' \<or> l = ''error'' \<or> l = ''warning'' \<or> l = ''info''
            then l else []))"

definition normalizeSeverity :: "string \<Rightarrow> string \<Rightarrow> string" where
  "normalizeSeverity v fallback =
     (let normalized = normalize v in
      if normalized \<noteq> [] then normalized
      else (let fallbackNormalized = normalize fallback in
            if fallbackNormalized \<noteq> [] then fallbackNormalized else ''warning''))"

section \<open>Matching a global pattern repeatedly\<close>

text \<open>
  The loops \<open>while ((match = pattern.exec(content)) !== null)\<close> over a pattern with the
  \<open>g\<close> flag are modelled by \<open>execAll\<close>. A pattern is a function that is given the
  character before the current position (for \<open>\b\<close>) and the text from the current
  position on, and answers whether the pattern matches exactly there: it returns the
  captured groups and the length of the match minus one (no pattern of the detectors
  matches the empty string). \<open>execAll\<close> tries the positions from left to right and,
  after a match, goes on behind it, as \<open>lastIndex\<close> does; it returns each match with
  its \<open>match.index\<close>.
\<close>

type_synonym 'm pattern = "char option \<Rightarrow> string \<Rightarrow> ('m \<times> nat) option"

function execAll :: "'m pattern \<Rightarrow> nat \<Rightarrow> char option \<Rightarrow> string \<Rightarrow> ('m \<times> nat) list" where
  "execAll m pos prev [] = []"
| "execAll m pos prev (c # cs) =
     (case m prev (c # cs) of
        None \<Rightarrow> execAll m (pos + 1) (Some c) cs
      | Some (groups, k) \<Rightarrow>
          (groups, pos) #
          execAll m (pos + Suc k) (Some (last (take (Suc k) (c # cs)))) (drop (Suc k) (c # cs)))"
  by pat_completeness auto
termination
  by (relation "measure (\<lambda>(m, pos, prev, s). length s)") auto

definition atWordStart :: "char option \<Rightarrow> bool" where
  \<comment> \<open>\<open>\b\<close> in front of a word character: the text starts here or the previous
      character is not a word character\<close>
  "atWordStart prev = (case prev of None \<Rightarrow> True | Some p \<Rightarrow> \<not> isWordChar p)"

definition upperChar :: "char \<Rightarrow> char" where
  \<comment> \<open>\<open>toUpperCase\<close> on one code unit: a-z, and the Latin-1 small letters 0xE0-0xFE
      except the division sign 0xF7 (the images of 0xB5, 0xDF and 0xFF are not code
      units below 256; they are left as they are)\<close>
  "upperChar c =
     (let n = (of_char c :: nat) in
      if (97 \<le> n \<and> n \<le> 122) \<or> (224 \<le> n \<and> n \<le> 254 \<and> n \<noteq> 247)
      then char_of (n - 32) else c)"

definition toUpperCase :: "string \<Rightarrow> string" where
  "toUpperCase s = map upperChar s"

definition isIdentStart :: "char \<Rightarrow> bool" where
  \<comment> \<open>the class \<open>[A-Za-z_]\<close>\<close>
  "isIdentStart c = (isUpper c \<or> isLower c \<or> c = CHR ''_'')"

section \<open>Documentation files\<close>

text \<open>A documentation or policy file that was read: its path and its text.\<close>

record docEntry =
  doc_file :: string
  doc_content :: string

section \<open>Parameter-list normalisation\<close>

definition isTokenChar :: "char \<Rightarrow> bool" where
  \<comment> \<open>the class \<open>[A-Za-z0-9_$-]\<close> that \<open>stripToken\<close> keeps\<close>
  "isTokenChar c = (isWordChar c \<or> c = CHR ''$'' \<or> c = CHR ''-'')"

definition stripToken :: "string \<Rightarrow> string" where
  \<comment> \<open>\<open>token.replace(/^[.\s]+/, '').replace(/[^A-Za-z0-9_$-]/g, '')\<close>\<close>
  "stripToken token =
     filter isTokenChar (dropWhile (\<lambda>c. c = CHR ''.'' \<or> isSpace c) token)"

definition goTypes :: "string list" where
  "goTypes = [''string'', ''int'', ''int64'', ''int32'', ''int16'', ''int8'',
              ''uint'', ''uint64'', ''uint32'', ''uint16'', ''uint8'',
              ''float64'', ''float32'', ''bool'', ''error'', ''byte'', ''rune'', ''any'']"

definition isGoTypeToken :: "string \<Rightarrow> bool" where
  "isGoTypeToken token =
     (if token = [] then False
      else (let normalized = filter (\<lambda>c. c \<noteq> CHR '','' \<and> c \<noteq> CHR '')'') token in
            if normalized \<in> set goTypes then True
            else if startsWith normalized ''[]'' \<or> startsWith normalized ''map[''
                    \<or> startsWith normalized ''*'' then True
            else if CHR ''.'' \<in> set normalized \<or> CHR ''['' \<in> set normalized
                    \<or> CHR '']'' \<in> set normalized then True
            else False))"

definition isTypeToken :: "string \<Rightarrow> bool" where
  "isTypeToken token =
     (if token = [] then False
      else (let normalized = filter (\<lambda>c. c \<noteq> CHR '','' \<and> c \<noteq> CHR '')'') token in
            if startsWith normalized ''[]'' \<or> startsWith normalized ''*''
               \<or> startsWith normalized ''map['' then True
            else if (\<exists>c \<in> set normalized. c \<in> set ''.<>[]'') then True
            else (case normalized of [] \<Rightarrow> False | c # _ \<Rightarrow> isUpper c)))"

definition normalizeParamName :: "string \<Rightarrow> error + string" where
  \<comment> \<open>with no token left (\<open>tokens.length === 0\<close>), \<open>first\<close> and \<open>last\<close> are
      \<open>undefined\<close>, both type tests answer false and \<open>stripToken(undefined)\<close> throws\<close>
  "normalizeParamName text =
     (if text = [] then Inr []
      else (let cleaned = trim text in
        if cleaned = [] then Inr []
        else (let cleaned1 = (if startsWith cleaned ''...'' then drop 3 cleaned else cleaned);
                  cleaned2 = filter (\<lambda>c. c \<noteq> CHR ''?'') cleaned1;
                  cleaned3 = trim (hd (splitChar CHR ''='' cleaned2))
              in if cleaned3 = [] then Inr []
                 else (let cleaned4 = (if CHR '':'' \<in> set cleaned3
                                       then trim (hd (splitChar CHR '':'' cleaned3))
                                       else cleaned3);
                           tokens = filter (\<lambda>t. t \<noteq> []) (splitSpaces False [] cleaned4)
                       in (case tokens of
                             [] \<Rightarrow> Inl TypeError
                           | [t] \<Rightarrow> Inr (stripToken t)
                           | first # _ \<Rightarrow>
                               (let lst = last tokens in
                                if isGoTypeToken lst then Inr (stripToken first)
                                else if isTypeToken first \<and> \<not> isTypeToken lst
                                     then Inr (stripToken lst)
                                else if isTypeToken lst \<and> \<not> isTypeToken first
                                     then Inr (stripToken first)
                                else Inr (stripToken lst)))))))"

definition nextDepth :: "char \<Rightarrow> nat \<Rightarrow> nat" where
  \<comment> \<open>the update of \<open>depth\<close> in \<open>splitParams\<close>; \<open>depth - 1\<close> on \<^typ>\<open>nat\<close> is
      \<open>Math.max(0, depth - 1)\<close>\<close>
  "nextDepth c depth =
     (if c \<in> set ''([{<'' then depth + 1
      else if c \<in> set '')]}>'' then depth - 1
      else depth)"

fun splitParamsLoop :: "string \<Rightarrow> string \<Rightarrow> nat \<Rightarrow> string list" where
  \<comment> \<open>the loop of \<open>splitParams\<close>: the text still to read, \<open>current\<close> and \<open>depth\<close>\<close>
  "splitParamsLoop [] current depth = (if current \<noteq> [] then [current] else [])"
| "splitParamsLoop (c # cs) current depth =
     (if c = CHR '','' \<and> nextDepth c depth = 0
      then current # splitParamsLoop cs [] (nextDepth c depth)
      else splitParamsLoop cs (current @ [c]) (nextDepth c depth))"

definition splitParams :: "string \<Rightarrow> string list" where
  "splitParams text = splitParamsLoop text [] 0"

definition normalizeParamList :: "string \<Rightarrow> error + string list" where
  "normalizeParamList text =
     (if text = [] then Inr []
      else (case mapE normalizeParamName (splitParams text) of
              Inl e \<Rightarrow> Inl e
            | Inr names \<Rightarrow> Inr (filter (\<lambda>p. p \<noteq> []) names)))"

definition paramKey :: "string list \<Rightarrow> string" where
  "paramKey params = join '','' params"

definition isLineTerminator :: "char \<Rightarrow> bool" where
  \<comment> \<open>the characters that \<open>.\<close> does not match\<close>
  "isLineTerminator c = (c = CHR 0x0A \<or> c = CHR 0x0D)"

fun extractSignatureParams :: "string \<Rightarrow> string" where
  \<comment> \<open>\<open>signature.match(/\((.*)\)/)\<close>: the leftmost parenthesis that has a closing one
      on its line, up to the last closing one of that line; no match gives the empty
      string\<close>
  "extractSignatureParams [] = []"
| "extractSignatureParams (c # cs) =
     (let lineRest = takeWhile (\<lambda>d. \<not> isLineTerminator d) cs in
      if c = CHR ''('' \<and> CHR '')'' \<in> set lineRest
      then rev (tl (dropWhile (\<lambda>d. d \<noteq> CHR '')'') (rev lineRest)))
      else extractSignatureParams cs)"

section \<open>Function comparison (compareFunctions)\<close>

record entity =
  ent_type :: string
  ent_name :: string
  ent_signature :: string
  ent_file :: string
  ent_line :: nat

record docFunction =
  df_name :: string
  df_params :: string
  df_signature :: string
  df_file :: string

record docVariant =
  dv_params :: "string list"
  dv_file :: string
  dv_signature :: string

record finding =
  f_source :: string
  f_type :: string
  f_severity :: string
  f_deterministic :: bool
  f_rule :: string
  f_file :: string
  f_explanation :: string
  f_suggestion :: string

definition ignoredDocNames :: "string list" where
  "ignoredDocNames = [''if'', ''for'', ''while'', ''switch'', ''catch'', ''return'', ''function'',
                      ''class'', ''def'']"

definition docFunctionPattern :: "(string \<times> string) pattern" where
  \<comment> \<open>\<open>/\b([A-Za-z_][A-Za-z0-9_]*)\s*\(([^)]*)\)/g\<close>\<close>
  "docFunctionPattern prev s =
     (case s of
        [] \<Rightarrow> None
      | c # r \<Rightarrow>
          if \<not> (atWordStart prev \<and> isIdentStart c) then None
          else (let more = takeWhile isWordChar r;
                    r1 = dropWhile isWordChar r;
                    gap = length (takeWhile isSpace r1)
                in case dropWhile isSpace r1 of
                     [] \<Rightarrow> None
                   | p # r2 \<Rightarrow>
                       if p \<noteq> CHR ''('' \<or> dropWhile (\<lambda>d. d \<noteq> CHR '')'') r2 = [] then None
                       else (let args = takeWhile (\<lambda>d. d \<noteq> CHR '')'') r2 in
                             Some ((c # more, args), length more + gap + 1 + length args + 1))))"

definition extractDocFunctions :: "docEntry list \<Rightarrow> docFunction list" where
  "extractDocFunctions docEntries =
     concat (map (\<lambda>entry.
        map (\<lambda>((name, params), index).
               \<lparr> df_name = name, df_params = params,
                 df_signature = name @ ''('' @ params @ '')'', df_file = doc_file entry \<rparr>)
            (filter (\<lambda>((name, params), index). name \<notin> set ignoredDocNames)
                    (execAll docFunctionPattern 0 None (doc_content entry))))
        docEntries)"

definition difference :: "string list \<Rightarrow> string list \<Rightarrow> string list" where
  "difference a b = filter (\<lambda>item. item \<notin> set b) a"

definition intersectionSize :: "string list \<Rightarrow> string list \<Rightarrow> nat" where
  "intersectionSize a b = length (filter (\<lambda>item. item \<in> set b) a)"

definition paramScore :: "string list \<Rightarrow> docVariant \<Rightarrow> int" where
  \<comment> \<open>\<open>overlap * 2 - totalDiff\<close> in the loop of \<open>chooseBestParamMatch\<close>\<close>
  "paramScore codeParams variant =
     (let overlap = intersectionSize codeParams (dv_params variant);
          totalDiff = length (difference codeParams (dv_params variant))
                      + length (difference (dv_params variant) codeParams)
      in int overlap * 2 - int totalDiff)"

fun chooseLoop :: "string list \<Rightarrow> docVariant list \<Rightarrow> docVariant \<Rightarrow> int \<Rightarrow> docVariant" where
  \<comment> \<open>the \<open>for\<close> loop of \<open>chooseBestParamMatch\<close>, with \<open>best\<close> and \<open>bestScore\<close>\<close>
  "chooseLoop codeParams [] best bestScore = best"
| "chooseLoop codeParams (variant # rest) best bestScore =
     (let score = paramScore codeParams variant in
      if score > bestScore then chooseLoop codeParams rest variant score
      else chooseLoop codeParams rest best bestScore)"

definition chooseBestParamMatch :: "string list \<Rightarrow> docVariant list \<Rightarrow> docVariant option" where
  \<comment> \<open>\<open>None\<close> is the \<open>undefined\<close> that \<open>docVariants[0]\<close> gives on an empty array\<close>
  "chooseBestParamMatch codeParams docVariants =
     (case docVariants of
        [] \<Rightarrow> None
      | v # _ \<Rightarrow> Some (chooseLoop codeParams docVariants v (- 1)))"

definition docsFinding :: "string \<Rightarrow> string \<Rightarrow> string \<Rightarrow> string \<Rightarrow> string \<Rightarrow> finding" where
  \<comment> \<open>the object literal pushed by the docs-drift comparisons; the configured
      docs-drift severity is the first argument\<close>
  "docsFinding sev ty file explanation suggestion =
     \<lparr> f_source = ''docs-drift'', f_type = ty,
       f_severity = normalizeSeverity sev ''warning'', f_deterministic = True,
       f_rule = [], f_file = file, f_explanation = explanation,
       f_suggestion = suggestion \<rparr>"

definition addDocFunction ::
  "(string \<rightharpoonup> docVariant list) \<Rightarrow> docFunction \<Rightarrow> error + (string \<rightharpoonup> docVariant list)" where
  \<comment> \<open>one iteration of \<open>for (const docFn of docFunctions)\<close>\<close>
  "addDocFunction docByName docFn =
     (case normalizeParamList (df_params docFn) of
        Inl e \<Rightarrow> Inl e
      | Inr params \<Rightarrow>
          Inr (docByName(df_name docFn \<mapsto>
                 (case docByName (df_name docFn) of None \<Rightarrow> [] | Some entry \<Rightarrow> entry)
                 @ [\<lparr> dv_params = params, dv_file = df_file docFn,
                      dv_signature = df_signature docFn \<rparr>])))"

definition buildDocByName :: "docFunction list \<Rightarrow> error + (string \<rightharpoonup> docVariant list)" where
  "buildDocByName docFunctions = foldE addDocFunction docFunctions Map.empty"

record fnLoopState =
  fl_results :: "finding list"
  fl_codeNames :: "string set"
  fl_seen :: "string set"

definition classifyFunction :: "string \<Rightarrow> entity \<Rightarrow> string list \<Rightarrow> docVariant \<Rightarrow> finding" where
  \<comment> \<open>the three-way branch on \<open>missing\<close> and \<open>extra\<close> after the best match is chosen\<close>
  "classifyFunction sev fn codeParams best =
     (let missing = difference codeParams (dv_params best);
          extra = difference (dv_params best) codeParams
      in if length missing > 0 \<and> length extra = 0 then
           docsFinding sev ''function-missing-params'' (ent_file fn)
             (''Docs for '' @ ent_name fn @ '' are missing params: '' @ join '', '' missing @ ''.'')
             ''Update docs to include the missing parameters.''
         else if length extra > 0 \<and> length missing = 0 then
           docsFinding sev ''function-extra-params'' (ent_file fn)
             (''Docs for '' @ ent_name fn @ '' include removed params: '' @ join '', '' extra @ ''.'')
             ''Update docs to remove parameters that no longer exist.''
         else
           docsFinding sev ''function-signature-mismatch'' (ent_file fn)
             (''Docs mention '' @ dv_signature best @ '' but code uses '' @ ent_signature fn @ ''.'')
             ''Update docs or code to align parameters.'')"

definition missingDocFinding :: "string \<Rightarrow> entity \<Rightarrow> finding" where
  "missingDocFinding sev fn =
     docsFinding sev ''function-missing-doc'' (ent_file fn)
       (''Function '' @ ent_signature fn @ '' is not documented.'')
       ''Add or update docs to include this function.''"

definition functionStep ::
  "string \<Rightarrow> (string \<rightharpoonup> docVariant list) \<Rightarrow> fnLoopState \<Rightarrow> entity \<Rightarrow> error + fnLoopState" where
  \<comment> \<open>one iteration of \<open>for (const fn of codeFunctions)\<close>\<close>
  "functionStep sev docByName st fn =
     (let st1 = st\<lparr> fl_codeNames := insert (ent_name fn) (fl_codeNames st) \<rparr> in
      case normalizeParamList (extractSignatureParams (ent_signature fn)) of
        Inl e \<Rightarrow> Inl e
      | Inr codeParams \<Rightarrow>
         (let codeKey = paramKey codeParams;
              docVariants = docByName (ent_name fn);
              seenKey = ent_name fn @ '':'' @ codeKey
          in if seenKey \<in> fl_seen st1 then Inr st1
             else (let st2 = st1\<lparr> fl_seen := insert seenKey (fl_seen st1) \<rparr> in
               case docVariants of
                 None \<Rightarrow>
                   Inr (st2\<lparr> fl_results := fl_results st2 @ [missingDocFinding sev fn] \<rparr>)
               | Some variants \<Rightarrow>
                   if length variants = 0 then
                     Inr (st2\<lparr> fl_results := fl_results st2 @ [missingDocFinding sev fn] \<rparr>)
                   else if (\<exists>variant \<in> set variants. paramKey (dv_params variant) = codeKey)
                   then Inr st2
                   else (case chooseBestParamMatch codeParams variants of
                           None \<Rightarrow> Inl TypeError
                         | Some best \<Rightarrow>
                             Inr (st2\<lparr> fl_results := fl_results st2 @
                                     [classifyFunction sev fn codeParams best] \<rparr>)))))"

fun docsOnlyLoop ::
  "string \<Rightarrow> string set \<Rightarrow> docFunction list \<Rightarrow> string set \<Rightarrow> finding list" where
  \<comment> \<open>the full-scan loop over the documented functions, with \<open>docSeen\<close>\<close>
  "docsOnlyLoop sev codeNames [] docSeen = []"
| "docsOnlyLoop sev codeNames (docFn # rest) docSeen =
     (if df_name docFn \<in> codeNames then docsOnlyLoop sev codeNames rest docSeen
      else if df_name docFn \<in> docSeen then docsOnlyLoop sev codeNames rest docSeen
      else docsFinding sev ''docs-mentions-missing-function'' (df_file docFn)
             (''Docs mention '' @ df_signature docFn @ '' but no matching code was found.'')
             ''Remove or update the docs, or restore the missing function.''
           # docsOnlyLoop sev codeNames rest (insert (df_name docFn) docSeen))"

definition compareFunctions ::
  "entity list \<Rightarrow> docEntry list \<Rightarrow> string \<Rightarrow> bool \<Rightarrow> error + finding list" where
  \<comment> \<open>\<open>compareFunctions(entities, docEntries, config, fullScan)\<close>; the third argument is
      the configured \<open>config.output.severity.docsDrift\<close>\<close>
  "compareFunctions entities docEntries sev fullScan =
     (let codeFunctions = filter (\<lambda>e. ent_type e = ''function'') entities in
      if length codeFunctions = 0 then Inr []
      else (let docFunctions = extractDocFunctions docEntries in
            case buildDocByName docFunctions of
              Inl e \<Rightarrow> Inl e
            | Inr docByName \<Rightarrow>
               (case foldE (functionStep sev docByName) codeFunctions
                       \<lparr> fl_results = [], fl_codeNames = {}, fl_seen = {} \<rparr> of
                  Inl e \<Rightarrow> Inl e
                | Inr st \<Rightarrow>
                    if fullScan
                    then Inr (fl_results st @ docsOnlyLoop sev (fl_codeNames st) docFunctions {})
                    else Inr (fl_results st))))"

definition isName :: "string \<Rightarrow> bool" where
  \<comment> \<open>a normalised parameter name: not empty, made of the characters \<open>stripToken\<close> keeps\<close>
  "isName n = (n \<noteq> [] \<and> (\<forall>c \<in> set n. isTokenChar c))"

section \<open>Endpoint comparison (normalizePath, compareEndpoints)\<close>

definition stripTrailingSlashes :: "string \<Rightarrow> string" where
  \<comment> \<open>\<open>normalized.replace(/\/+$/, '')\<close>\<close>
  "stripTrailingSlashes s = rev (dropWhile (\<lambda>c. c = CHR ''/'') (rev s))"

function replaceBraces :: "string \<Rightarrow> string" where
  \<comment> \<open>\<open>normalized.replace(/\{[^}]+\}/g, ':param')\<close>: at an opening brace the pattern
      matches when at least one character other than \<open>}\<close> follows and a \<open>}\<close> ends
      that run\<close>
  "replaceBraces [] = []"
| "replaceBraces (c # cs) =
     (let body = takeWhile (\<lambda>d. d \<noteq> CHR ''}'') cs;
          rest = dropWhile (\<lambda>d. d \<noteq> CHR ''}'') cs
      in if c = CHR ''{'' \<and> body \<noteq> [] \<and> rest \<noteq> []
         then '':param'' @ replaceBraces (tl rest)
         else c # replaceBraces cs)"
  by pat_completeness auto
termination
  by (relation "measure length")
     (auto simp: less_Suc_eq_le intro!: order_trans[OF diff_le_self length_dropWhile_le])

function replaceColons :: "string \<Rightarrow> string" where
  \<comment> \<open>\<open>normalized.replace(/:[^/]+/g, ':param')\<close>: a colon and the longest run of
      characters other than \<open>/\<close> behind it, when that run is not empty\<close>
  "replaceColons [] = []"
| "replaceColons (c # cs) =
     (if c = CHR '':'' \<and> takeWhile (\<lambda>d. d \<noteq> CHR ''/'') cs \<noteq> []
      then '':param'' @ replaceColons (dropWhile (\<lambda>d. d \<noteq> CHR ''/'') cs)
      else c # replaceColons cs)"
  by pat_completeness auto
termination
  by (relation "measure length") (auto simp: less_Suc_eq_le length_dropWhile_le)

definition normalizePath :: "string \<Rightarrow> string" where
  "normalizePath pathValue =
     (if pathValue = [] then []
      else (let normalized = replaceColons (replaceBraces (stripTrailingSlashes (trim pathValue)))
            in if normalized = [] then ''/'' else normalized))"

definition parseEndpointName :: "string \<Rightarrow> (string \<times> string) option" where
  \<comment> \<open>the method and the path of an endpoint entity's name; \<open>None\<close> is \<open>null\<close>\<close>
  "parseEndpointName name =
     (if name = [] then None
      else (let parts = splitSpaces False [] (trim name) in
            if length parts < 2 then None
            else Some (toUpperCase (hd parts), join '' '' (tl parts))))"

record docEndpoint =
  de_method :: string
  de_path :: string
  de_file :: string

definition httpMethods :: "string list" where
  "httpMethods = [''GET'', ''POST'', ''PUT'', ''PATCH'', ''DELETE'']"

definition isDocPathChar :: "char \<Rightarrow> bool" where
  \<comment> \<open>the class \<open>[^\s`"'()]\<close>\<close>
  "isDocPathChar c = (\<not> isSpace c \<and> c \<notin> set [CHR 0x60, CHR 0x22, CHR 0x27, CHR ''('', CHR '')''])"

definition asciiUpper :: "char \<Rightarrow> char" where
  \<comment> \<open>the canonical form the \<open>i\<close> flag compares: a-z become A-Z\<close>
  "asciiUpper c = (if isLower c then char_of ((of_char c :: nat) - 32) else c)"

definition docEndpointPattern :: "(string \<times> string) pattern" where
  \<comment> \<open>\<open>/\b(GET|POST|PUT|PATCH|DELETE)\s+([^\s`"'()]+)/gi\<close>\<close>
  "docEndpointPattern prev s =
     (if \<not> atWordStart prev then None
      else (case filter (\<lambda>m. map asciiUpper (take (length m) s) = m) httpMethods of
              [] \<Rightarrow> None
            | m # _ \<Rightarrow>
                (let rest = drop (length m) s;
                     gap = takeWhile isSpace rest;
                     pathValue = takeWhile isDocPathChar (dropWhile isSpace rest)
                 in if gap = [] \<or> pathValue = [] then None
                    else Some ((take (length m) s, pathValue),
                               length m + length gap + length pathValue - 1))))"

definition extractDocEndpoints :: "docEntry list \<Rightarrow> docEndpoint list" where
  "extractDocEndpoints docEntries =
     concat (map (\<lambda>entry.
        map (\<lambda>((method, pathValue), index).
               \<lparr> de_method = toUpperCase method, de_path = pathValue, de_file = doc_file entry \<rparr>)
            (filter (\<lambda>((method, pathValue), index). startsWith pathValue ''/'')
                    (execAll docEndpointPattern 0 None (doc_content entry))))
        docEntries)"

definition addDocEndpoint :: "(string \<rightharpoonup> string list) \<Rightarrow> docEndpoint \<Rightarrow> (string \<rightharpoonup> string list)" where
  \<comment> \<open>one iteration of \<open>for (const doc of docEndpoints)\<close>: the set of methods of a path
      is a list without repetitions, in the order of insertion\<close>
  "addDocEndpoint docMap doc =
     (let normalizedPath = normalizePath (de_path doc);
          entry = (case docMap normalizedPath of None \<Rightarrow> [] | Some e \<Rightarrow> e)
      in docMap(normalizedPath \<mapsto>
           (if de_method doc \<in> set entry then entry else entry @ [de_method doc])))"

record epLoopState =
  el_results :: "finding list"
  el_codeEndpointSet :: "string set"
  el_seen :: "string set"

definition endpointStep ::
  "string \<Rightarrow> (string \<rightharpoonup> string list) \<Rightarrow> epLoopState \<Rightarrow> entity \<Rightarrow> epLoopState" where
  \<comment> \<open>one iteration of \<open>for (const endpoint of codeEndpoints)\<close>\<close>
  "endpointStep sev docMap st endpoint =
     (case parseEndpointName (ent_name endpoint) of
        None \<Rightarrow> st
      | Some (method, pathValue) \<Rightarrow>
         (let normalizedPath = normalizePath pathValue;
              key = method @ '' '' @ normalizedPath;
              st1 = st\<lparr> el_codeEndpointSet := insert key (el_codeEndpointSet st) \<rparr>
          in if key \<in> el_seen st1 then st1
             else (let st2 = st1\<lparr> el_seen := insert key (el_seen st1) \<rparr> in
               case docMap normalizedPath of
                 None \<Rightarrow>
                   st2\<lparr> el_results := el_results st2 @
                     [docsFinding sev ''endpoint-missing-doc'' (ent_file endpoint)
                        (''Endpoint '' @ method @ '' '' @ pathValue @ '' is not documented.'')
                        ''Update docs to include this endpoint.''] \<rparr>
               | Some docMethods \<Rightarrow>
                   if method \<notin> set docMethods then
                     st2\<lparr> el_results := el_results st2 @
                       [docsFinding sev ''endpoint-method-mismatch'' (ent_file endpoint)
                          (''Docs list '' @ join '', '' docMethods @ '' for '' @ pathValue
                             @ '', but code uses '' @ method @ ''.'')
                          ''Align the documented method with code.''] \<rparr>
                   else st2)))"

definition docsOnlyEndpoints :: "string \<Rightarrow> string set \<Rightarrow> docEndpoint list \<Rightarrow> finding list" where
  \<comment> \<open>the full-scan loop over the documented endpoints\<close>
  "docsOnlyEndpoints sev codeEndpointSet docEndpoints =
     map (\<lambda>doc. docsFinding sev ''docs-mentions-missing-endpoint'' (de_file doc)
                  (''Docs mention '' @ de_method doc @ '' '' @ de_path doc
                     @ '' but no matching code was found.'')
                  ''Remove or update the docs, or restore the endpoint.'')
         (filter (\<lambda>doc. de_method doc @ '' '' @ normalizePath (de_path doc) \<notin> codeEndpointSet)
                 docEndpoints)"

definition compareEndpoints ::
  "entity list \<Rightarrow> docEntry list \<Rightarrow> string \<Rightarrow> bool \<Rightarrow> finding list" where
  \<comment> \<open>\<open>compareEndpoints(entities, docEntries, config, fullScan)\<close>; the third argument is
      the configured \<open>config.output.severity.docsDrift\<close>\<close>
  "compareEndpoints entities docEntries sev fullScan =
     (let codeEndpoints = filter (\<lambda>e. ent_type e = ''endpoint'') entities in
      if length codeEndpoints = 0 then []
      else (let docEndpoints = extractDocEndpoints docEntries;
                docMap = fold (\<lambda>doc m. addDocEndpoint m doc) docEndpoints Map.empty;
                st = fold (\<lambda>endpoint s. endpointStep sev docMap s endpoint) codeEndpoints
                       \<lparr> el_results = [], el_codeEndpointSet = {}, el_seen = {} \<rparr>
            in if fullScan
               then el_results st @ docsOnlyEndpoints sev (el_codeEndpointSet st) docEndpoints
               else el_results st))"

subsection \<open>Paths written with placeholders\<close>

text \<open>
  A path template is a list of parts: literal text and placeholders. It is written
  with \<open>{name}\<close> for each placeholder, or with \<open>:name\<close>.
\<close>

datatype pathPart = Literal string | Placeholder string

datatype placeholderStyle = Braces | Colons

fun renderPart :: "placeholderStyle \<Rightarrow> pathPart \<Rightarrow> string" where
  "renderPart style (Literal s) = s"
| "renderPart Braces (Placeholder name) = ''{'' @ name @ ''}''"
| "renderPart Colons (Placeholder name) = '':'' @ name"

definition renderPath :: "placeholderStyle \<Rightarrow> pathPart list \<Rightarrow> string" where
  "renderPath style parts = concat (map (renderPart style) parts)"

fun wellFormedPart :: "pathPart \<Rightarrow> bool" where
  \<comment> \<open>literal text has no opening brace; a placeholder's name is not empty and has no
      slash, brace or white space\<close>
  "wellFormedPart (Literal s) = (CHR ''{'' \<notin> set s)"
| "wellFormedPart (Placeholder name) =
     (name \<noteq> [] \<and> (\<forall>c \<in> set name. c \<notin> set ''/{}'' \<and> \<not> isSpace c))"

definition wellFormedPath :: "pathPart list \<Rightarrow> bool" where
  "wellFormedPath parts = list_all wellFormedPart parts"

text \<open>
  For the proofs a template is flattened into atoms: one atom for each character of
  literal text and one for each placeholder.
\<close>

datatype pathAtom = Ch char | Hole string

fun atomsOf :: "pathPart \<Rightarrow> pathAtom list" where
  "atomsOf (Literal s) = map Ch s"
| "atomsOf (Placeholder name) = [Hole name]"

fun renderAtom :: "(string \<Rightarrow> string) \<Rightarrow> pathAtom \<Rightarrow> string" where
  "renderAtom h (Ch c) = [c]"
| "renderAtom h (Hole name) = h name"

definition renderAtoms :: "(string \<Rightarrow> string) \<Rightarrow> pathAtom list \<Rightarrow> string" where
  "renderAtoms h as = concat (map (renderAtom h) as)"

fun holeText :: "placeholderStyle \<Rightarrow> string \<Rightarrow> string" where
  "holeText Braces name = ''{'' @ name @ ''}''"
| "holeText Colons name = '':'' @ name"

fun wellFormedAtom :: "pathAtom \<Rightarrow> bool" where
  "wellFormedAtom (Ch c) = (c \<noteq> CHR ''{'')"
| "wellFormedAtom (Hole name) =
     (name \<noteq> [] \<and> (\<forall>c \<in> set name. c \<notin> set ''/{}'' \<and> \<not> isSpace c))"

fun atomIs :: "(char \<Rightarrow> bool) \<Rightarrow> pathAtom \<Rightarrow> bool" where
  "atomIs P (Ch c) = P c"
| "atomIs P (Hole name) = False"

definition trimAtoms :: "pathAtom list \<Rightarrow> pathAtom list" where
  "trimAtoms as =
     rev (dropWhile (atomIs (\<lambda>c. c = CHR ''/''))
       (rev (rev (dropWhile (atomIs isSpace) (rev (dropWhile (atomIs isSpace) as))))))"

section \<open>The JavaScript runtime\<close>

text \<open>
  The regular-expression engine, the clock and the conversion \<open>Number(string)\<close> are
  not code of the repository. They are the fields of a \<open>runtime\<close>, and every function
  that uses one of them takes the runtime as its first argument:
  \<^item> \<open>rt_RegExp source flags\<close>: whether \<open>new RegExp(source, flags)\<close> returns (it throws a
    \<open>SyntaxError\<close> otherwise);
  \<^item> \<open>rt_exec source flags lastIndex text\<close>: what \<open>regex.exec(text)\<close> returns for a
    regular expression with that source, flags and \<open>lastIndex\<close> (\<open>None\<close> is \<open>null\<close>),
    and the \<open>lastIndex\<close> it leaves;
  \<^item> \<open>rt_elapsed source flags lastIndex text\<close>: the milliseconds that \<open>Date.now()\<close>
    measures around that call;
  \<^item> \<open>rt_Number s\<close>: the number \<open>Number(s)\<close>; a finite number is given by its value.
\<close>

record jsMatch =
  m_whole :: string
  m_group1 :: "string option"

datatype jsNumber = NaN | PosInfinity | NegInfinity | Finite rat

record runtime =
  rt_RegExp :: "string \<Rightarrow> string \<Rightarrow> bool"
  rt_exec :: "string \<Rightarrow> string \<Rightarrow> nat \<Rightarrow> string \<Rightarrow> jsMatch option \<times> nat"
  rt_elapsed :: "string \<Rightarrow> string \<Rightarrow> nat \<Rightarrow> string \<Rightarrow> nat"
  rt_Number :: "string \<Rightarrow> jsNumber"

record regExp =
  rx_source :: string
  rx_flags :: string
  rx_lastIndex :: nat

definition rx_global :: "regExp \<Rightarrow> bool" where
  "rx_global regex = (CHR ''g'' \<in> set (rx_flags regex))"

definition rx_sticky :: "regExp \<Rightarrow> bool" where
  "rx_sticky regex = (CHR ''y'' \<in> set (rx_flags regex))"

definition exec :: "runtime \<Rightarrow> regExp \<Rightarrow> string \<Rightarrow> jsMatch option \<times> regExp" where
  \<comment> \<open>\<open>regex.exec(text)\<close>: the match and the regular expression with its new
      \<open>lastIndex\<close>\<close>
  "exec rt regex text =
     (case rt_exec rt (rx_source regex) (rx_flags regex) (rx_lastIndex regex) text of
        (m, lastIndex) \<Rightarrow> (m, regex\<lparr> rx_lastIndex := lastIndex \<rparr>))"

definition test :: "runtime \<Rightarrow> regExp \<Rightarrow> string \<Rightarrow> bool \<times> regExp" where
  \<comment> \<open>\<open>regex.test(text)\<close>\<close>
  "test rt regex text = (case exec rt regex text of (m, regex') \<Rightarrow> (m \<noteq> None, regex'))"

section \<open>Payload-key renames (findPayloadKeyRenames, comparePayloadKeyRenames)\<close>

subsection \<open>Field tokens of a line\<close>

record quoteState =
  inSingle :: bool
  inDouble :: bool
  inBacktick :: bool
  escaped :: bool

definition stripStep :: "quoteState \<Rightarrow> char \<Rightarrow> quoteState \<times> char" where
  \<comment> \<open>the body of the loop of \<open>stripStringLiterals\<close>: the new state and the character
      appended to \<open>result\<close>\<close>
  "stripStep st c =
     (if escaped st then (st\<lparr> escaped := False \<rparr>, CHR '' '')
      else if c = CHR 0x5C then (st\<lparr> escaped := True \<rparr>, CHR '' '')
      else if inSingle st then
        ((if c = CHR 0x27 then st\<lparr> inSingle := False \<rparr> else st), CHR '' '')
      else if inDouble st then
        ((if c = CHR 0x22 then st\<lparr> inDouble := False \<rparr> else st), CHR '' '')
      else if inBacktick st then
        ((if c = CHR 0x60 then st\<lparr> inBacktick := False \<rparr> else st), CHR '' '')
      else if c = CHR 0x27 then (st\<lparr> inSingle := True \<rparr>, CHR '' '')
      else if c = CHR 0x22 then (st\<lparr> inDouble := True \<rparr>, CHR '' '')
      else if c = CHR 0x60 then (st\<lparr> inBacktick := True \<rparr>, CHR '' '')
      else (st, c))"

fun stripLoop :: "quoteState \<Rightarrow> string \<Rightarrow> string" where
  "stripLoop st [] = []"
| "stripLoop st (c # cs) = (case stripStep st c of (st', out) \<Rightarrow> out # stripLoop st' cs)"

definition stripStringLiterals :: "string \<Rightarrow> string" where
  "stripStringLiterals line =
     stripLoop \<lparr> inSingle = False, inDouble = False, inBacktick = False, escaped = False \<rparr> line"

definition isQuoteChar :: "char \<Rightarrow> bool" where
  \<comment> \<open>the class \<open>["'`]\<close>\<close>
  "isQuoteChar c = (c = CHR 0x22 \<or> c = CHR 0x27 \<or> c = CHR 0x60)"

definition isQuotedKeyChar :: "char \<Rightarrow> bool" where
  \<comment> \<open>the class \<open>[A-Za-z0-9_.-]\<close>\<close>
  "isQuotedKeyChar c = (isWordChar c \<or> c = CHR ''.'' \<or> c = CHR ''-'')"

definition isIdentChar :: "char \<Rightarrow> bool" where
  \<comment> \<open>the class \<open>[A-Za-z0-9_-]\<close>\<close>
  "isIdentChar c = (isWordChar c \<or> c = CHR ''-'')"

definition colonAfterSpaces :: "string \<Rightarrow> nat option" where
  \<comment> \<open>\<open>\s*:\<close> at the start of the text: the number of white-space characters in
      front of the colon\<close>
  "colonAfterSpaces s =
     (case dropWhile isSpace s of
        [] \<Rightarrow> None
      | d # _ \<Rightarrow> if d = CHR '':'' then Some (length (takeWhile isSpace s)) else None)"

definition quotedKeyPattern :: "string pattern" where
  \<comment> \<open>\<open>/["'`]([A-Za-z0-9_.-]+)["'`]\s*:/g\<close>\<close>
  "quotedKeyPattern prev s =
     (case s of
        [] \<Rightarrow> None
      | q # r \<Rightarrow>
          if \<not> isQuoteChar q then None
          else (let key = takeWhile isQuotedKeyChar r in
                if key = [] then None
                else (case dropWhile isQuotedKeyChar r of
                        [] \<Rightarrow> None
                      | q2 # r2 \<Rightarrow>
                          if \<not> isQuoteChar q2 then None
                          else (case colonAfterSpaces r2 of
                                  None \<Rightarrow> None
                                | Some gap \<Rightarrow> Some (key, 1 + length key + 1 + gap)))))"

definition unquotedKeyPattern :: "string pattern" where
  \<comment> \<open>\<open>/\b([A-Za-z_][A-Za-z0-9_-]*)\s*:/g\<close>\<close>
  "unquotedKeyPattern prev s =
     (case s of
        [] \<Rightarrow> None
      | c # r \<Rightarrow>
          if \<not> (atWordStart prev \<and> isIdentStart c) then None
          else (let more = takeWhile isIdentChar r in
                case colonAfterSpaces (dropWhile isIdentChar r) of
                  None \<Rightarrow> None
                | Some gap \<Rightarrow> Some (c # more, length more + gap + 1)))"

definition isJsonTagChar :: "char \<Rightarrow> bool" where
  \<comment> \<open>the class \<open>[^,"']\<close>\<close>
  "isJsonTagChar c = (c \<noteq> CHR '','' \<and> c \<noteq> CHR 0x22 \<and> c \<noteq> CHR 0x27)"

definition jsonTagPattern :: "string pattern" where
  \<comment> \<open>\<open>/\bjson\s*:\s*["']([^,"']+)/g\<close>\<close>
  "jsonTagPattern prev s =
     (if \<not> (atWordStart prev \<and> startsWith s ''json'') then None
      else (case colonAfterSpaces (drop 4 s) of
              None \<Rightarrow> None
            | Some gap1 \<Rightarrow>
                (let afterColon = drop (4 + gap1 + 1) s;
                     gap2 = length (takeWhile isSpace afterColon)
                 in case dropWhile isSpace afterColon of
                      [] \<Rightarrow> None
                    | q # r \<Rightarrow>
                        if \<not> (q = CHR 0x22 \<or> q = CHR 0x27) then None
                        else (let v = takeWhile isJsonTagChar r in
                              if v = [] then None
                              else Some (v, 4 + gap1 + 1 + gap2 + 1 + length v - 1)))))"

definition annotationName :: "string \<Rightarrow> nat option" where
  \<comment> \<open>\<open>(?:JsonProperty(?:Name)?|SerializedName)\<close> at the start of the text, as far as
      the rest of the pattern can use it: the length of the name\<close>
  "annotationName s =
     (if startsWith s ''JsonProperty'' then
        (if startsWith (drop 12 s) ''Name'' then Some 16 else Some 12)
      else if startsWith s ''SerializedName'' then Some 14
      else None)"

definition annotationPattern :: "string pattern" where
  \<comment> \<open>\<open>/(?:@|\[)\s*(?:JsonProperty(?:Name)?|SerializedName)\s*\(([^)]*)\)/g\<close>\<close>
  "annotationPattern prev s =
     (case s of
        [] \<Rightarrow> None
      | c # r \<Rightarrow>
          if \<not> (c = CHR ''@'' \<or> c = CHR ''['') then None
          else (let gap1 = length (takeWhile isSpace r);
                    r1 = dropWhile isSpace r
                in case annotationName r1 of
                     None \<Rightarrow> None
                   | Some n \<Rightarrow>
                       (let r2 = drop n r1;
                            gap2 = length (takeWhile isSpace r2)
                        in case dropWhile isSpace r2 of
                             [] \<Rightarrow> None
                           | p # r3 \<Rightarrow>
                               if p \<noteq> CHR ''('' then None
                               else (let args = takeWhile (\<lambda>d. d \<noteq> CHR '')'') r3 in
                                     if dropWhile (\<lambda>d. d \<noteq> CHR '')'') r3 = [] then None
                                     else Some (args, 1 + gap1 + n + gap2 + 1 + length args)))))"

fun firstLiteral :: "string \<Rightarrow> string option" where
  \<comment> \<open>\<open>args.match(/["']([^"']+)["']/)\<close>: the first quoted, non-empty literal\<close>
  "firstLiteral [] = None"
| "firstLiteral (q # r) =
     (let v = takeWhile (\<lambda>d. d \<noteq> CHR 0x22 \<and> d \<noteq> CHR 0x27) r in
      if (q = CHR 0x22 \<or> q = CHR 0x27) \<and> v \<noteq> []
         \<and> dropWhile (\<lambda>d. d \<noteq> CHR 0x22 \<and> d \<noteq> CHR 0x27) r \<noteq> []
      then Some v else firstLiteral r)"

definition EXCLUDED_PAYLOAD_KEYS :: "string list" where
  "EXCLUDED_PAYLOAD_KEYS = [''case'', ''default'', ''return'', ''break'', ''continue'',
                            ''if'', ''else'', ''for'', ''while'', ''switch'']"

definition pushKey :: "string list \<Rightarrow> string \<Rightarrow> string list" where
  \<comment> \<open>\<open>pushKey(key)\<close>: the array \<open>keys\<close> after the call\<close>
  "pushKey keys key =
     (if key = [] then keys
      else (let cleaned = trim key in
            if cleaned = [] \<or> cleaned = ''-'' then keys
            else if list_all isDigit cleaned then keys
            else keys @ [cleaned]))"

definition uniqueKeys :: "string list \<Rightarrow> string list" where
  \<comment> \<open>\<open>Array.from(new Set(keys))\<close>: the first occurrences, in order\<close>
  "uniqueKeys keys = fold (\<lambda>k acc. if k \<in> set acc then acc else acc @ [k]) keys []"

definition startsKeyword :: "string \<Rightarrow> bool" where
  \<comment> \<open>\<open>/^(case|default)\b/.test(trimmed)\<close>\<close>
  "startsKeyword trimmed =
     ((startsWith trimmed ''case'' \<and> atWordStart (case drop 4 trimmed of [] \<Rightarrow> None | d # _ \<Rightarrow> Some d))
      \<or> (startsWith trimmed ''default'' \<and> atWordStart (case drop 7 trimmed of [] \<Rightarrow> None | d # _ \<Rightarrow> Some d)))"

definition extractPayloadKeysFromLine :: "string \<Rightarrow> string list" where
  "extractPayloadKeysFromLine line =
     (let trimmed = trim line in
      if trimmed = [] then []
      else if startsWith trimmed ''//'' \<or> startsWith trimmed ''#'' then []
      else if startsWith trimmed ''/*'' \<or> startsWith trimmed ''*'' then []
      else if startsKeyword trimmed then []
      else (let keys1 = fold (\<lambda>(key, index) keys. pushKey keys key)
                          (execAll quotedKeyPattern 0 None line) [];
                keys2 = fold (\<lambda>(key, index) keys.
                                if key = [] \<or> key \<in> set EXCLUDED_PAYLOAD_KEYS then keys
                                else pushKey keys key)
                          (execAll unquotedKeyPattern 0 None (stripStringLiterals line)) keys1;
                keys3 = fold (\<lambda>(key, index) keys. pushKey keys key)
                          (execAll jsonTagPattern 0 None line) keys2;
                keys4 = fold (\<lambda>(args, index) keys.
                                case firstLiteral args of
                                  None \<Rightarrow> keys
                                | Some literal \<Rightarrow> pushKey keys literal)
                          (execAll annotationPattern 0 None line) keys3
            in uniqueKeys keys4))"

subsection \<open>The allowlist\<close>

datatype allowEntry =
    EntryRegExp string string   \<comment> \<open>a \<open>RegExp\<close> object: its source and flags\<close>
  | EntryString string

datatype matcher =
    UserRegExp string string    \<comment> \<open>an entry that is a \<open>RegExp\<close>, or \<open>new RegExp(body, flags)\<close>\<close>
  | WildcardRegExp string       \<comment> \<open>\<open>wildcardToRegExp(raw)\<close>\<close>
  | ExactRegExp string          \<comment> \<open>\<open>new RegExp(`^${escapeRegExp(raw)}$`)\<close>\<close>

fun lastIndexOf :: "char \<Rightarrow> string \<Rightarrow> nat option" where
  \<comment> \<open>\<open>s.lastIndexOf(c)\<close>; \<open>None\<close> is \<open>-1\<close>\<close>
  "lastIndexOf c [] = None"
| "lastIndexOf c (d # ds) =
     (case lastIndexOf c ds of
        Some i \<Rightarrow> Some (Suc i)
      | None \<Rightarrow> if d = c then Some 0 else None)"

definition compileEntry :: "runtime \<Rightarrow> allowEntry \<Rightarrow> error + matcher list" where
  \<comment> \<open>one iteration of the loop of \<open>compileAllowlist\<close>: the matchers it pushes\<close>
  "compileEntry rt entry =
     (case entry of
        EntryRegExp source flags \<Rightarrow> Inr [UserRegExp source flags]
      | EntryString s \<Rightarrow>
          if s = [] then Inr []
          else (let raw = trim s in
                if raw = [] then Inr []
                else (case lastIndexOf CHR ''/'' raw of
                        Some (Suc k) \<Rightarrow>
                          if startsWith raw ''/'' then
                            (let body = take k (drop 1 raw);
                                 flags = drop (Suc (Suc k)) raw
                             in if rt_RegExp rt body flags then Inr [UserRegExp body flags]
                                else Inl (Error ''SyntaxError''))
                          else if CHR ''*'' \<in> set raw \<or> CHR ''?'' \<in> set raw
                               then Inr [WildcardRegExp raw]
                          else Inr [ExactRegExp raw]
                      | _ \<Rightarrow>
                          if CHR ''*'' \<in> set raw \<or> CHR ''?'' \<in> set raw
                          then Inr [WildcardRegExp raw]
                          else Inr [ExactRegExp raw])))"

definition compileAllowlist :: "runtime \<Rightarrow> allowEntry list \<Rightarrow> error + matcher list" where
  "compileAllowlist rt allowlist =
     (if length allowlist = 0 then Inr []
      else (case mapE (compileEntry rt) allowlist of
              Inl e \<Rightarrow> Inl e
            | Inr ms \<Rightarrow> Inr (concat ms)))"

fun wildcardMatch :: "string \<Rightarrow> string \<Rightarrow> bool" where
  \<comment> \<open>whether the regular expression of \<open>wildcardToRegExp(pattern)\<close> matches the key:
      \<open>*\<close> has become \<open>.*\<close>; \<open>?\<close> was escaped first, so the second replacement turns
      \<open>\?\<close> into \<open>\.\<close>, a literal dot; every other character stands for itself\<close>
  "wildcardMatch [] key = (key = [])"
| "wildcardMatch (p # ps) key =
     (if p = CHR ''*'' then
        list_ex (\<lambda>i. wildcardMatch ps (drop i key))
                [0 ..< Suc (length (takeWhile (\<lambda>d. \<not> isLineTerminator d) key))]
      else (case key of
              [] \<Rightarrow> False
            | c # rest \<Rightarrow> (if p = CHR ''?'' then c = CHR ''.'' else c = p) \<and> wildcardMatch ps rest))"

definition matcherTest :: "runtime \<Rightarrow> matcher \<Rightarrow> string \<Rightarrow> bool" where
  \<comment> \<open>\<open>matcher.test(key)\<close>; a matcher built from the user's regular expression is asked
      with \<open>lastIndex\<close> 0\<close>
  "matcherTest rt m key =
     (case m of
        UserRegExp source flags \<Rightarrow> fst (rt_exec rt source flags 0 key) \<noteq> None
      | WildcardRegExp raw \<Rightarrow> wildcardMatch raw key
      | ExactRegExp raw \<Rightarrow> key = raw)"

definition matchesAllowlist :: "runtime \<Rightarrow> string \<Rightarrow> matcher list \<Rightarrow> bool" where
  "matchesAllowlist rt key allowlist =
     (if length allowlist = 0 then True
      else list_ex (\<lambda>m. matcherTest rt m key) allowlist)"

subsection \<open>Renames in a diff\<close>

record rename =
  oldKey :: string
  newKey :: string

record hunkState =
  hs_renames :: "rename list"
  hs_removed :: "string list"
  hs_added :: "string list"

definition finalizeHunk :: "runtime \<Rightarrow> matcher list \<Rightarrow> hunkState \<Rightarrow> hunkState" where
  "finalizeHunk rt allowlist st =
     (if length (hs_removed st) = 0 \<and> length (hs_added st) = 0 then st
      else (let uniqueRemoved = uniqueKeys (hs_removed st);
                uniqueAdded = uniqueKeys (hs_added st);
                renames =
                  (case (uniqueRemoved, uniqueAdded) of
                     ([old], [new]) \<Rightarrow>
                       if old \<noteq> new \<and> (matchesAllowlist rt old allowlist
                                         \<or> matchesAllowlist rt new allowlist)
                       then hs_renames st @ [\<lparr> oldKey = old, newKey = new \<rparr>]
                       else hs_renames st
                   | _ \<Rightarrow> hs_renames st)
            in \<lparr> hs_renames = renames, hs_removed = [], hs_added = [] \<rparr>))"

definition diffLineStep :: "runtime \<Rightarrow> matcher list \<Rightarrow> hunkState \<Rightarrow> string \<Rightarrow> hunkState" where
  \<comment> \<open>one iteration of \<open>for (const line of lines)\<close>\<close>
  "diffLineStep rt allowlist st line =
     (if startsWith line ''@@'' then finalizeHunk rt allowlist st
      else if startsWith line ''+++'' \<or> startsWith line ''---'' then st
      else if startsWith line ''+''
           then st\<lparr> hs_added := hs_added st @ extractPayloadKeysFromLine (drop 1 line) \<rparr>
      else if startsWith line ''-''
           then st\<lparr> hs_removed := hs_removed st @ extractPayloadKeysFromLine (drop 1 line) \<rparr>
      else st)"

definition findPayloadKeyRenames :: "runtime \<Rightarrow> string \<Rightarrow> matcher list \<Rightarrow> rename list" where
  "findPayloadKeyRenames rt diffText allowlist =
     hs_renames
       (finalizeHunk rt allowlist
          (fold (\<lambda>line st. diffLineStep rt allowlist st line) (splitChar CHR 0x0A diffText)
             \<lparr> hs_renames = [], hs_removed = [], hs_added = [] \<rparr>))"






subsection \<open>Hunks and rename candidates\<close>

text \<open>
  The lines of a diff between two hunk headers (lines that start with \<open>@@\<close>) form a
  hunk; the lines in front of the first header form one too. The field tokens of a
  hunk are those of its removed lines (\<open>-\<close>, but not \<open>---\<close>) and of its added lines
  (\<open>+\<close>, but not \<open>+++\<close>).
\<close>

fun hunksOf :: "string list \<Rightarrow> string list list" where
  "hunksOf [] = [[]]"
| "hunksOf (line # rest) =
     (if startsWith line ''@@'' then [] # hunksOf rest
      else (case hunksOf rest of
              [] \<Rightarrow> [[line]]
            | hunk # hunks \<Rightarrow> (line # hunk) # hunks))"

definition removedKeys :: "string \<Rightarrow> string list" where
  "removedKeys line =
     (if startsWith line ''-'' \<and> \<not> startsWith line ''---''
      then extractPayloadKeysFromLine (drop 1 line) else [])"

definition addedKeys :: "string \<Rightarrow> string list" where
  "addedKeys line =
     (if startsWith line ''+'' \<and> \<not> startsWith line ''+++''
      then extractPayloadKeysFromLine (drop 1 line) else [])"

definition removedTokens :: "string list \<Rightarrow> string list" where
  "removedTokens hunk = concat (map removedKeys hunk)"

definition addedTokens :: "string list \<Rightarrow> string list" where
  "addedTokens hunk = concat (map addedKeys hunk)"

definition isRenameCandidate ::
  "runtime \<Rightarrow> matcher list \<Rightarrow> string list \<Rightarrow> string list \<Rightarrow> string \<Rightarrow> string \<Rightarrow> bool" where
  \<comment> \<open>the removed tokens are the one token \<open>old\<close>, the added tokens the one token
      \<open>new\<close>, the two differ, and the allowlist is empty or one of its matchers accepts
      one of the two\<close>
  "isRenameCandidate rt allowlist removed added old new =
     (set removed = {old} \<and> set added = {new} \<and> old \<noteq> new
      \<and> (allowlist = [] \<or> (\<exists>m \<in> set allowlist. matcherTest rt m old \<or> matcherTest rt m new)))"

definition hunkRenames :: "runtime \<Rightarrow> matcher list \<Rightarrow> string list \<Rightarrow> string list \<Rightarrow> rename list" where
  \<comment> \<open>what \<open>finalizeHunk\<close> appends to \<open>renames\<close> for these removed and added tokens\<close>
  "hunkRenames rt allowlist removed added =
     hs_renames (finalizeHunk rt allowlist
                   \<lparr> hs_renames = [], hs_removed = removed, hs_added = added \<rparr>)"

subsection \<open>An example diff\<close>

definition exampleDiff :: string where
  \<comment> \<open>one hunk that renames the field \<open>user_id\<close> to \<open>uid\<close>\<close>
  "exampleDiff =
     join [CHR 0x0A]
       [''diff --git a/src/handler.js b/src/handler.js'', ''--- a/src/handler.js'',
        ''+++ b/src/handler.js'', ''@@ -1,3 +1,3 @@'', '' const payload = {'',
        ''-  user_id: userId,'', ''+  uid: userId,'', '' };'']"


section \<open>Deterministic comparisons (runDeterministicComparisons)\<close>

subsection \<open>Building and screening a regular expression\<close>

definition MAX_REGEX_TIME_MS :: nat where
  "MAX_REGEX_TIME_MS = 100"

definition digitChar :: "nat \<Rightarrow> char" where
  "digitChar n = char_of (48 + n)"

function showNat :: "nat \<Rightarrow> string" where
  \<comment> \<open>a number in a template string\<close>
  "showNat n = (if n < 10 then [digitChar n] else showNat (n div 10) @ [digitChar (n mod 10)])"
  by pat_completeness auto
termination
  by (relation "measure id") auto

definition testCases :: "string list" where
  "testCases = [replicate 50 CHR ''a'', ''aaaaaaaaaaaaaaaaaX'', replicate 30 CHR ''a'' @ ''b'']"

definition probeStep :: "runtime \<Rightarrow> bool \<Rightarrow> regExp \<Rightarrow> string \<Rightarrow> error + regExp" where
  \<comment> \<open>one iteration of \<open>for (const testCase of testCases)\<close>: the error thrown in the
      \<open>try\<close> block has \<open>ReDoS\<close> in its message, so the \<open>catch\<close> block throws it again\<close>
  "probeStep rt shouldReset regex testCase =
     (let regex1 = (if shouldReset then regex\<lparr> rx_lastIndex := 0 \<rparr> else regex);
          elapsed = rt_elapsed rt (rx_source regex1) (rx_flags regex1) (rx_lastIndex regex1) testCase;
          regex2 = snd (test rt regex1 testCase)
      in if elapsed > MAX_REGEX_TIME_MS
         then Inl (Error (''Regex pattern is too complex (took '' @ showNat elapsed @ ''ms, max ''
                          @ showNat MAX_REGEX_TIME_MS
                          @ ''ms). Potential ReDoS vulnerability detected.''))
         else Inr regex2)"

definition validateRegexSafety :: "runtime \<Rightarrow> regExp \<Rightarrow> error + regExp" where
  "validateRegexSafety rt regex =
     (let shouldReset = (rx_global regex \<or> rx_sticky regex) in
      case foldE (probeStep rt shouldReset) testCases regex of
        Inl e \<Rightarrow> Inl e
      | Inr probed \<Rightarrow> Inr (if shouldReset then probed\<lparr> rx_lastIndex := 0 \<rparr> else probed))"

datatype patternValue =
    PatRegExp regExp      \<comment> \<open>a \<open>RegExp\<close> object\<close>
  | PatString string
  | PatOther              \<comment> \<open>a truthy value that is neither\<close>

definition orDefault :: "string \<Rightarrow> string \<Rightarrow> string" where
  \<comment> \<open>\<open>a || b\<close> on strings: the empty string and \<open>undefined\<close> are both \<open>[]\<close>\<close>
  "orDefault a b = (if a \<noteq> [] then a else b)"

definition buildRegex :: "runtime \<Rightarrow> patternValue \<Rightarrow> string \<Rightarrow> error + regExp option" where
  \<comment> \<open>\<open>None\<close> is the \<open>null\<close> returned for a pattern that is not a string\<close>
  "buildRegex rt pattern flags =
     (case pattern of
        PatRegExp regex \<Rightarrow> map_sum id Some (validateRegexSafety rt regex)
      | PatOther \<Rightarrow> Inr None
      | PatString p \<Rightarrow>
          (let slashed = (case lastIndexOf CHR ''/'' p of
                            Some (Suc k) \<Rightarrow> if startsWith p ''/'' then Some k else None
                          | _ \<Rightarrow> None);
               body = (case slashed of Some k \<Rightarrow> take k (drop 1 p) | None \<Rightarrow> p);
               finalFlags = (case slashed of
                               Some k \<Rightarrow> orDefault (drop (Suc (Suc k)) p) (orDefault flags ''g'')
                             | None \<Rightarrow> orDefault flags ''g'')
           in if \<not> rt_RegExp rt body finalFlags
              then Inl (Error (''Invalid regex pattern '' @ [CHR 0x22] @ p @ [CHR 0x22]))
              else map_sum id Some
                     (validateRegexSafety rt
                        \<lparr> rx_source = body, rx_flags = finalFlags, rx_lastIndex = 0 \<rparr>)))"

partial_function (option) extractLoop ::
  "runtime \<Rightarrow> regExp \<Rightarrow> string \<Rightarrow> string list \<Rightarrow> string list option" where
  \<comment> \<open>the \<open>while\<close> loop of \<open>extractMatches\<close>; \<open>None\<close> when it does not end\<close>
  "extractLoop rt regex text vals =
     (case exec rt regex text of
        (None, regex') \<Rightarrow> Some vals
      | (Some m, regex') \<Rightarrow>
          (let v = (case m_group1 m of Some g \<Rightarrow> g | None \<Rightarrow> m_whole m);
               vals' = vals @ [trim v]
           in if \<not> rx_global regex then Some vals'
              else extractLoop rt regex' text vals'))"

declare extractLoop.simps [code]

definition extractMatches :: "runtime \<Rightarrow> string \<Rightarrow> regExp option \<Rightarrow> string list option" where
  "extractMatches rt text regex =
     (case regex of None \<Rightarrow> Some [] | Some r \<Rightarrow> extractLoop rt r text [])"

subsection \<open>Comparing two values\<close>

definition isFinite :: "jsNumber \<Rightarrow> bool" where
  "isFinite n = (case n of Finite _ \<Rightarrow> True | _ \<Rightarrow> False)"

definition parseNumber :: "runtime \<Rightarrow> string \<Rightarrow> jsNumber" where
  "parseNumber rt v =
     (let cleaned = filter (\<lambda>c. c \<noteq> CHR '','' \<and> c \<noteq> CHR '' '' \<and> c \<noteq> CHR ''_'') v;
          parsed = rt_Number rt cleaned
      in if parsed = NaN then NaN else parsed)"

definition normalizeValue :: "runtime \<Rightarrow> string \<Rightarrow> string \<Rightarrow> jsNumber \<times> string" where
  \<comment> \<open>the pair \<open>(numeric, text)\<close>\<close>
  "normalizeValue rt v valueType =
     (if valueType = ''string'' then (NaN, trim v)
      else if valueType = ''number'' \<or> valueType = ''int'' \<or> valueType = ''float''
           then (parseNumber rt v, trim v)
      else (let num = parseNumber rt v in
            if isFinite num then (num, trim v) else (NaN, trim v)))"

definition isInfix :: "string \<Rightarrow> string \<Rightarrow> bool" where
  \<comment> \<open>\<open>s.includes(part)\<close>\<close>
  "isInfix part s = list_ex (\<lambda>i. startsWith (drop i s) part) [0 ..< Suc (length s)]"

definition numericValue :: "jsNumber \<Rightarrow> rat" where
  "numericValue n = (case n of Finite r \<Rightarrow> r | _ \<Rightarrow> 0)"

definition compareValues :: "runtime \<Rightarrow> string \<Rightarrow> string \<Rightarrow> string \<Rightarrow> string \<Rightarrow> bool" where
  "compareValues rt codeValue policyValue compare valueType =
     (case (normalizeValue rt codeValue valueType, normalizeValue rt policyValue valueType) of
        ((codeNum, codeText), (policyNum, policyText)) \<Rightarrow>
          if isFinite codeNum \<and> isFinite policyNum then
            (let a = numericValue codeNum; b = numericValue policyNum in
             if compare = ''eq'' \<or> compare = ''equals'' then a = b
             else if compare = ''not_equals'' \<or> compare = ''ne'' then a \<noteq> b
             else if compare = ''gt'' then a > b
             else if compare = ''gte'' \<or> compare = ''ge'' then a \<ge> b
             else if compare = ''lt'' then a < b
             else if compare = ''lte'' \<or> compare = ''le'' then a \<le> b
             else a = b)
          else
            (let left = toLowerCase codeText; right = toLowerCase policyText in
             if compare = ''not_equals'' \<or> compare = ''ne'' then left \<noteq> right
             else if compare = ''contains'' then isInfix right left \<or> isInfix left right
             else left = right))"

subsection \<open>The loop over the comparisons\<close>

record comparison =
  cmp_codePattern :: "patternValue option"     \<comment> \<open>\<open>code_pattern || codePattern\<close>\<close>
  cmp_policyPattern :: "patternValue option"   \<comment> \<open>\<open>policy_pattern || policyPattern\<close>\<close>
  cmp_codeFlags :: string                      \<comment> \<open>\<open>code_flags || codeFlags\<close>\<close>
  cmp_policyFlags :: string                    \<comment> \<open>\<open>policy_flags || policyFlags\<close>\<close>
  cmp_compare :: string
  cmp_valueType :: string                      \<comment> \<open>\<open>value_type || valueType\<close>\<close>
  cmp_severity :: string
  cmp_name :: string
  cmp_label :: string

record cmpState =
  cs_results :: "finding list"
  cs_seen :: "string set"

definition truthyPattern :: "patternValue option \<Rightarrow> patternValue option" where
  \<comment> \<open>a pattern that passes \<open>!pattern\<close>: the empty string does not\<close>
  "truthyPattern p = (case p of Some (PatString []) \<Rightarrow> None | _ \<Rightarrow> p)"

definition logicFinding ::
  "string \<Rightarrow> string \<Rightarrow> string \<Rightarrow> string \<Rightarrow> string \<Rightarrow> string \<Rightarrow> finding" where
  "logicFinding ty severity ruleName file explanation suggestion =
     \<lparr> f_source = ''logic-drift'', f_type = ty, f_severity = severity, f_deterministic = True,
       f_rule = ruleName, f_file = file, f_explanation = explanation,
       f_suggestion = suggestion \<rparr>"

definition mismatchKey :: "string \<Rightarrow> string \<Rightarrow> string list \<Rightarrow> string" where
  "mismatchKey label codeValue policyValues =
     label @ '':mismatch:'' @ codeValue @ '':'' @ join '','' policyValues"

definition mismatchFinding ::
  "string \<Rightarrow> string \<Rightarrow> string \<Rightarrow> string \<Rightarrow> string list \<Rightarrow> string \<Rightarrow> finding" where
  "mismatchFinding severity ruleName file label policyValues codeValue =
     logicFinding ''policy-value-mismatch'' severity ruleName file
       (''Policy mismatch for '' @ label @ ''. Code uses '' @ codeValue @ '', policy says ''
          @ join '', '' policyValues @ ''.'')
       ''Align code and policy to the same value.''"

definition missingFinding ::
  "string \<Rightarrow> string \<Rightarrow> string \<Rightarrow> string \<Rightarrow> string list \<Rightarrow> finding" where
  "missingFinding severity ruleName file label codeValues =
     logicFinding ''policy-value-missing'' severity ruleName file
       (''Policy value missing for '' @ label @ ''. Code changed to '' @ join '', '' codeValues
          @ '' but no matching policy value was found.'')
       ''Update policy docs to include the value or adjust the code.''"

definition satisfied :: "runtime \<Rightarrow> string \<Rightarrow> string \<Rightarrow> string list \<Rightarrow> string \<Rightarrow> bool" where
  \<comment> \<open>\<open>policyValues.some((policyValue) => compareValues(codeValue, policyValue, ...))\<close>\<close>
  "satisfied rt compare valueType policyValues codeValue =
     list_ex (\<lambda>policyValue. compareValues rt codeValue policyValue compare valueType) policyValues"

definition mismatchStep ::
  "runtime \<Rightarrow> string \<Rightarrow> string \<Rightarrow> string \<Rightarrow> string \<Rightarrow> string \<Rightarrow> string \<Rightarrow> string list
   \<Rightarrow> cmpState \<Rightarrow> string \<Rightarrow> cmpState" where
  \<comment> \<open>one iteration of \<open>for (const codeValue of codeValues)\<close>\<close>
  "mismatchStep rt compare valueType severity ruleName file label policyValues st codeValue =
     (if satisfied rt compare valueType policyValues codeValue then st
      else (let key = mismatchKey label codeValue policyValues in
            if key \<in> cs_seen st then st
            else \<lparr> cs_results = cs_results st @
                       [mismatchFinding severity ruleName file label policyValues codeValue],
                   cs_seen = insert key (cs_seen st) \<rparr>))"

definition compareExtracted ::
  "runtime \<Rightarrow> comparison \<Rightarrow> string \<Rightarrow> string \<Rightarrow> string \<Rightarrow> string list \<Rightarrow> string list
   \<Rightarrow> cmpState \<Rightarrow> cmpState" where
  \<comment> \<open>the body of the loop over the comparisons once \<open>codeValues\<close> (not empty) and
      \<open>policyValues\<close> are extracted; the third argument is the configured
      \<open>config.output.severity.logicDrift\<close>\<close>
  "compareExtracted rt cmp logicDrift ruleName file codeValues policyValues st =
     (let compare = toLowerCase (orDefault (cmp_compare cmp) ''equals'');
          valueType = toLowerCase (orDefault (cmp_valueType cmp) ''auto'');
          severity = normalizeSeverity (cmp_severity cmp) logicDrift;
          label = orDefault (cmp_name cmp) (orDefault (cmp_label cmp) ruleName)
      in if length policyValues = 0 then
           (let key = label @ '':missing:'' @ join '','' codeValues in
            if key \<in> cs_seen st then st
            else \<lparr> cs_results = cs_results st @
                       [missingFinding severity ruleName file label codeValues],
                   cs_seen = insert key (cs_seen st) \<rparr>)
         else fold (\<lambda>codeValue s.
                      mismatchStep rt compare valueType severity ruleName file label policyValues
                        s codeValue)
                   codeValues st)"

definition comparisonStep ::
  "runtime \<Rightarrow> string \<Rightarrow> string \<Rightarrow> string \<Rightarrow> string \<Rightarrow> string \<Rightarrow> cmpState \<Rightarrow> comparison
   \<Rightarrow> (error + cmpState) option" where
  \<comment> \<open>one iteration of \<open>for (const comparison of comparisons)\<close>; \<open>None\<close> when a loop of
      \<open>extractMatches\<close> does not end, \<open>Some (Inl e)\<close> when \<open>buildRegex\<close> throws\<close>
  "comparisonStep rt diffText policyText logicDrift ruleName file st cmp =
     (case (truthyPattern (cmp_codePattern cmp), truthyPattern (cmp_policyPattern cmp)) of
        (Some codePattern, Some policyPattern) \<Rightarrow>
          (case buildRegex rt codePattern (cmp_codeFlags cmp) of
             Inl e \<Rightarrow> Some (Inl e)
           | Inr codeRegex \<Rightarrow>
              (case buildRegex rt policyPattern (cmp_policyFlags cmp) of
                 Inl e \<Rightarrow> Some (Inl e)
               | Inr policyRegex \<Rightarrow>
                  (case extractMatches rt diffText codeRegex of
                     None \<Rightarrow> None
                   | Some codeValues \<Rightarrow>
                       if length codeValues = 0 then Some (Inr st)
                       else (case extractMatches rt policyText policyRegex of
                               None \<Rightarrow> None
                             | Some policyValues \<Rightarrow>
                                 Some (Inr (compareExtracted rt cmp logicDrift ruleName file
                                              codeValues policyValues st))))))
      | _ \<Rightarrow> Some (Inr st))"

fun comparisonsLoop ::
  "runtime \<Rightarrow> string \<Rightarrow> string \<Rightarrow> string \<Rightarrow> string \<Rightarrow> string \<Rightarrow> comparison list \<Rightarrow> cmpState
   \<Rightarrow> (error + cmpState) option" where
  "comparisonsLoop rt diffText policyText logicDrift ruleName file [] st = Some (Inr st)"
| "comparisonsLoop rt diffText policyText logicDrift ruleName file (cmp # rest) st =
     (case comparisonStep rt diffText policyText logicDrift ruleName file st cmp of
        None \<Rightarrow> None
      | Some (Inl e) \<Rightarrow> Some (Inl e)
      | Some (Inr st') \<Rightarrow> comparisonsLoop rt diffText policyText logicDrift ruleName file rest st')"

definition runDeterministicComparisons ::
  "runtime \<Rightarrow> comparison list \<Rightarrow> string \<Rightarrow> string \<Rightarrow> string \<Rightarrow> string \<Rightarrow> string
   \<Rightarrow> (error + finding list) option" where
  \<comment> \<open>the arguments after the runtime: \<open>comparisons\<close>, \<open>diffText\<close>, \<open>policyText\<close>,
      \<open>config.output.severity.logicDrift\<close>, \<open>ruleName\<close> and \<open>file\<close>\<close>
  "runDeterministicComparisons rt comparisons diffText policyText logicDrift ruleName file =
     map_option (map_sum id cs_results)
       (comparisonsLoop rt diffText policyText logicDrift ruleName file comparisons
          \<lparr> cs_results = [], cs_seen = {} \<rparr>)"

subsection \<open>A runtime for the examples\<close>

text \<open>
  The examples below run on a runtime that knows the two simplest cases of the
  engine: a regular expression whose source has no metacharacter matches its source
  as literal text (no group is captured), and \<open>Number\<close> of a string of decimal digits,
  with or without a sign, is that integer; \<open>Number('')\<close> is 0.
\<close>

fun indexOfFrom :: "string \<Rightarrow> nat \<Rightarrow> string \<Rightarrow> nat option" where
  \<comment> \<open>the first position, counted from \<open>pos\<close>, where the text starts with \<open>source\<close>\<close>
  "indexOfFrom source pos [] = (if source = [] then Some pos else None)"
| "indexOfFrom source pos (c # cs) =
     (if startsWith (c # cs) source then Some pos else indexOfFrom source (pos + 1) cs)"

definition literalExec :: "string \<Rightarrow> string \<Rightarrow> nat \<Rightarrow> string \<Rightarrow> jsMatch option \<times> nat" where
  \<comment> \<open>\<open>exec\<close> for a source without metacharacters: with \<open>g\<close> or \<open>y\<close> the search starts at
      \<open>lastIndex\<close> and leaves \<open>lastIndex\<close> behind the match, or 0 when there is none;
      with \<open>y\<close> the match must start at \<open>lastIndex\<close>; without them \<open>lastIndex\<close> is neither
      read nor written\<close>
  "literalExec source flags lastIndex text =
     (let moving = (CHR ''g'' \<in> set flags \<or> CHR ''y'' \<in> set flags);
          start = (if moving then lastIndex else 0);
          found = (if start > length text then None
                   else if CHR ''y'' \<in> set flags
                        then (if startsWith (drop start text) source then Some start else None)
                   else indexOfFrom source start (drop start text))
      in case found of
           None \<Rightarrow> (None, if moving then 0 else lastIndex)
         | Some i \<Rightarrow> (Some \<lparr> m_whole = source, m_group1 = None \<rparr>,
                      if moving then i + length source else lastIndex))"

definition digitValue :: "string \<Rightarrow> nat" where
  "digitValue ds = fold (\<lambda>c n. 10 * n + ((of_char c :: nat) - 48)) ds 0"

definition decimalNumber :: "string \<Rightarrow> jsNumber" where
  "decimalNumber s =
     (let t = trim s in
      if t = [] then Finite 0
      else if list_all isDigit t then Finite (of_nat (digitValue t))
      else (case t of
              c # ds \<Rightarrow>
                if ds \<noteq> [] \<and> list_all isDigit ds \<and> c = CHR ''-'' then Finite (- of_nat (digitValue ds))
                else if ds \<noteq> [] \<and> list_all isDigit ds \<and> c = CHR ''+'' then Finite (of_nat (digitValue ds))
                else NaN
            | [] \<Rightarrow> NaN))"

definition exampleRuntime :: runtime where
  "exampleRuntime =
     \<lparr> rt_RegExp = (\<lambda>source flags. True), rt_exec = literalExec,
       rt_elapsed = (\<lambda>source flags lastIndex text. 0), rt_Number = decimalNumber \<rparr>"

section \<open>Extraction rules (extractClassNames, extractRubyFunctions, extractJsFunctions)\<close>


















subsection \<open>A pattern for the examples\<close>



section \<open>Parameter-list normalisation is idempotent\<close>

lemma isTokenChar_cases:
  assumes "isTokenChar c"
  shows "\<not> isSpace c" "c \<noteq> CHR ''.''" "c \<noteq> CHR ''?''" "c \<noteq> CHR ''=''" "c \<noteq> CHR '':''"
        "c \<noteq> CHR '',''" "nextDepth c d = d"
  using assms
  by (auto simp: isTokenChar_def isWordChar_def isUpper_def isLower_def isDigit_def isSpace_def nextDepth_def)

lemma mapE_Inr_set:
  "mapE f xs = Inr ys \<Longrightarrow> y \<in> set ys \<Longrightarrow> \<exists>x \<in> set xs. f x = Inr y"
  by (induction xs arbitrary: ys) (auto split: sum.splits)

lemma mapE_fixed:
  "(\<And>x. x \<in> set xs \<Longrightarrow> f x = Inr x) \<Longrightarrow> mapE f xs = Inr xs"
  by (induction xs) auto

lemma stripToken_chars: "c \<in> set (stripToken t) \<Longrightarrow> isTokenChar c"
  by (simp add: stripToken_def)

lemma normalizeParamName_chars:
  "normalizeParamName t = Inr n \<Longrightarrow> c \<in> set n \<Longrightarrow> isTokenChar c"
  by (auto simp: normalizeParamName_def Let_def stripToken_chars split: if_splits list.splits)


lemma splitChar_absent: "sep \<notin> set s \<Longrightarrow> splitChar sep s = [s]"
  by (induction s) auto

lemma splitSpaces_no_space:
  "\<forall>c \<in> set s. \<not> isSpace c \<Longrightarrow> splitSpaces b cur s = [cur @ s]"
  by (induction s arbitrary: b cur) auto

lemma dropWhile_id: "s = [] \<or> \<not> P (hd s) \<Longrightarrow> dropWhile P s = s"
  by (cases s) auto

lemma trim_name: "isName n \<Longrightarrow> trim n = n"
proof -
  assume n: "isName n"
  then have ne: "n \<noteq> []" and h: "\<not> isSpace (hd n)" and l: "\<not> isSpace (last n)"
    by (auto simp: isName_def isTokenChar_cases)
  have "dropWhile isSpace n = n" using h by (simp add: dropWhile_id)
  moreover have "dropWhile isSpace (rev n) = rev n"
    using l ne by (simp add: dropWhile_id hd_rev)
  ultimately show ?thesis by (simp add: trim_def)
qed

lemma stripToken_name: "isName n \<Longrightarrow> stripToken n = n"
proof -
  assume n: "isName n"
  then have "\<not> (hd n = CHR ''.'' \<or> isSpace (hd n))"
    by (auto simp: isName_def isTokenChar_cases)
  then have "dropWhile (\<lambda>c. c = CHR ''.'' \<or> isSpace c) n = n"
    by (simp add: dropWhile_id)
  moreover have "filter isTokenChar n = n" using n by (simp add: isName_def)
  ultimately show ?thesis by (simp add: stripToken_def)
qed

lemma normalizeParamName_name:
  assumes n: "isName n"
  shows "normalizeParamName n = Inr n"
proof -
  have ne: "n \<noteq> []" using n by (simp add: isName_def)
  have chars: "\<And>c. c \<in> set n \<Longrightarrow> isTokenChar c" using n by (simp add: isName_def)
  have dots: "\<not> startsWith n ''...''"
  proof
    assume "startsWith n ''...''"
    then have "hd n = CHR ''.''" using ne by (cases n) (auto simp: startsWith_def)
    moreover have "isTokenChar (hd n)" using ne chars by simp
    ultimately show False using isTokenChar_cases(2) by blast
  qed
  have q: "filter (\<lambda>c. c \<noteq> CHR ''?'') n = n"
    using chars isTokenChar_cases(3) by (auto simp: filter_id_conv)
  have eq: "splitChar CHR ''='' n = [n]"
    using chars isTokenChar_cases(4) by (intro splitChar_absent) blast
  have colon: "CHR '':'' \<notin> set n" using chars isTokenChar_cases(5) by blast
  have sp: "splitSpaces False [] n = [n]"
    using chars isTokenChar_cases(1) by (simp add: splitSpaces_no_space)
  show ?thesis
    using ne dots q eq colon sp trim_name[OF n] stripToken_name[OF n]
    by (simp add: normalizeParamName_def)
qed

lemma splitParamsLoop_name:
  "\<forall>c \<in> set n. isTokenChar c \<Longrightarrow>
   splitParamsLoop (n @ rest) cur 0 = splitParamsLoop rest (cur @ n) 0"
  by (induction n arbitrary: cur) (auto simp: isTokenChar_cases)

lemma splitParamsLoop_comma:
  "splitParamsLoop (CHR '','' # rest) cur 0 = cur # splitParamsLoop rest [] 0"
  by (simp add: nextDepth_def)

lemma splitParams_join:
  "\<forall>n \<in> set ns. isName n \<Longrightarrow> splitParamsLoop (join '','' ns) [] 0 = ns"
proof (induction "'',''" ns rule: join.induct)
  case 1
  then show ?case by simp
next
  case (2 x)
  then have "isName x" by simp
  then show ?case
    using splitParamsLoop_name[of x "[]" "[]"] by (simp add: isName_def)
next
  case (3 x y ys)
  then have x: "isName x" and rest: "\<forall>n \<in> set (y # ys). isName n" by simp_all
  have "splitParamsLoop (x @ '','' @ join '','' (y # ys)) [] 0
        = splitParamsLoop ('','' @ join '','' (y # ys)) x 0"
    using x splitParamsLoop_name[of x "'','' @ join '','' (y # ys)" "[]"]
    by (simp add: isName_def)
  also have "\<dots> = x # splitParamsLoop (join '','' (y # ys)) [] 0"
    using splitParamsLoop_comma by simp
  also have "\<dots> = x # y # ys" using 3 rest by simp
  finally show ?case by simp
qed

lemma join_empty: "\<forall>n \<in> set ns. n \<noteq> [] \<Longrightarrow> join sep ns = [] \<Longrightarrow> ns = []"
  by (induction sep ns rule: join.induct) auto

lemma normalizeParamList_names:
  assumes "normalizeParamList P = Inr ns" "n \<in> set ns"
  shows "isName n"
proof (cases "P = []")
  case True
  then show ?thesis using assms by (simp add: normalizeParamList_def)
next
  case False
  then obtain raw where raw: "mapE normalizeParamName (splitParams P) = Inr raw"
      and ns: "ns = filter (\<lambda>p. p \<noteq> []) raw"
    using assms(1) by (auto simp: normalizeParamList_def split: sum.splits)
  then have "n \<in> set raw" "n \<noteq> []" using assms(2) by auto
  then obtain t where "normalizeParamName t = Inr n"
    using mapE_Inr_set[OF raw] by blast
  then show ?thesis
    using \<open>n \<noteq> []\<close> normalizeParamName_chars by (auto simp: isName_def)
qed

lemma normalizeParamList_of_names:
  assumes "\<forall>n \<in> set ns. isName n"
  shows "normalizeParamList (paramKey ns) = Inr ns"
proof (cases "paramKey ns = []")
  case True
  then have "ns = []" using assms join_empty[of ns "'',''"] by (auto simp: paramKey_def isName_def)
  then show ?thesis by (simp add: normalizeParamList_def paramKey_def)
next
  case False
  have sp: "splitParams (paramKey ns) = ns"
    using assms by (simp add: splitParams_def paramKey_def splitParams_join)
  have "mapE normalizeParamName ns = Inr ns"
    using assms normalizeParamName_name by (intro mapE_fixed) blast
  moreover have "filter (\<lambda>p. p \<noteq> []) ns = ns"
    using assms by (auto simp: filter_id_conv isName_def)
  ultimately show ?thesis using False sp by (simp add: normalizeParamList_def)
qed

text \<open>
  Claim C7. Normalising a parameter list a second time changes nothing: when
  \<open>normalizeParamList\<close> returns the names \<open>names\<close> for the text \<open>P\<close>, normalising
  the names joined by commas (\<open>paramKey\<close>) returns \<open>names\<close> again, and so does normalising
  each name by \<open>normalizeParamName\<close>; when it throws on \<open>P\<close> there is no list to
  normalise again.
\<close>

theorem normalizeParamList_idempotent:
  "(case normalizeParamList P of
      Inl e \<Rightarrow> Inl e
    | Inr names \<Rightarrow> normalizeParamList (paramKey names)) = normalizeParamList P
   \<and> (case normalizeParamList P of
        Inl e \<Rightarrow> Inl e
      | Inr names \<Rightarrow> mapE normalizeParamName names) = normalizeParamList P"
proof (cases "normalizeParamList P")
  case (Inl e)
  then show ?thesis by simp
next
  case (Inr names)
  then have n: "\<forall>n \<in> set names. isName n" using normalizeParamList_names by blast
  then have "mapE normalizeParamName names = Inr names"
    using normalizeParamName_name by (intro mapE_fixed) blast
  then show ?thesis using Inr n by (simp add: normalizeParamList_of_names)
qed

theorem normalizeParamList_idempotent_witness:
  "normalizeParamList ''email: string, ...rest, int count, opts = {}''
     = Inr [''email'', ''rest'', ''count'', ''opts'']
   \<and> normalizeParamList (paramKey [''email'', ''rest'', ''count'', ''opts''])
     = Inr [''email'', ''rest'', ''count'', ''opts'']
   \<and> paramKey [''email'', ''rest'', ''count'', ''opts''] = ''email,rest,count,opts''
   \<and> mapE normalizeParamName [''email'', ''rest'', ''count'', ''opts'']
     = Inr [''email'', ''rest'', ''count'', ''opts'']"
proof -
  have a: "normalizeParamList ''email: string, ...rest, int count, opts = {}''
           = Inr [''email'', ''rest'', ''count'', ''opts'']"
    by code_simp
  have k: "paramKey [''email'', ''rest'', ''count'', ''opts''] = ''email,rest,count,opts''"
    by code_simp
  show ?thesis
    using normalizeParamList_idempotent[of "''email: string, ...rest, int count, opts = {}''"] k
    unfolding a by simp
qed

section \<open>Functions with an exactly matching documented variant\<close>

lemma addDocFunction_lookup:
  "addDocFunction m0 d = Inr m1 \<Longrightarrow> m0 k = Some vs0 \<Longrightarrow>
   \<exists>vs. m1 k = Some vs \<and> set vs0 \<subseteq> set vs"
  by (auto simp: addDocFunction_def split: sum.splits)

lemma foldE_addDoc_mono:
  "foldE addDocFunction ds m0 = Inr m \<Longrightarrow> m0 k = Some vs0 \<Longrightarrow>
   \<exists>vs. m k = Some vs \<and> set vs0 \<subseteq> set vs"
proof (induction ds arbitrary: m0 vs0)
  case Nil
  then show ?case by simp
next
  case (Cons d ds)
  then obtain m1 where m1: "addDocFunction m0 d = Inr m1" and rest: "foldE addDocFunction ds m1 = Inr m"
    by (auto split: sum.splits)
  from addDocFunction_lookup[OF m1 Cons.prems(2)]
  obtain vs1 where vs1: "m1 k = Some vs1" "set vs0 \<subseteq> set vs1" by blast
  from Cons.IH[OF rest vs1(1)] vs1(2) show ?case by blast
qed

lemma addDocFunction_self:
  "addDocFunction m0 d = Inr m1 \<Longrightarrow>
   \<exists>ps vs. normalizeParamList (df_params d) = Inr ps \<and> m1 (df_name d) = Some vs
           \<and> (\<exists>v \<in> set vs. dv_params v = ps)"
  by (auto simp: addDocFunction_def split: sum.splits)

lemma foldE_addDoc_member:
  "foldE addDocFunction ds m0 = Inr m \<Longrightarrow> d \<in> set ds \<Longrightarrow>
   \<exists>ps vs. normalizeParamList (df_params d) = Inr ps \<and> m (df_name d) = Some vs
           \<and> (\<exists>v \<in> set vs. dv_params v = ps)"
proof (induction ds arbitrary: m0)
  case Nil
  then show ?case by simp
next
  case (Cons x ds)
  then obtain m1 where m1: "addDocFunction m0 x = Inr m1" and rest: "foldE addDocFunction ds m1 = Inr m"
    by (auto split: sum.splits)
  show ?case
  proof (cases "d = x")
    case True
    from addDocFunction_self[OF m1] True
    obtain ps vs1 v where a: "normalizeParamList (df_params d) = Inr ps" "m1 (df_name d) = Some vs1"
      "v \<in> set vs1" "dv_params v = ps" by blast
    from foldE_addDoc_mono[OF rest a(2)] a show ?thesis by blast
  next
    case False
    then have "d \<in> set ds" using Cons.prems(2) by simp
    from Cons.IH[OF rest this] show ?thesis .
  qed
qed

text \<open>
  Claim C5. Let \<open>d\<close> be a function found in the documentation with the name of the
  code function
  \<open>fn\<close> and the same normalised parameter list. Then the iteration of
  \<open>compareFunctions\<close> for \<open>fn\<close> returns, from any state of the loop, and leaves the
  list of findings as it was: no finding is emitted for \<open>fn\<close>. The name of \<open>fn\<close> is
  recorded as a code name, so the full scan reports no documented function of that
  name as missing; and \<open>compareFunctions\<close> on \<open>fn\<close> alone, without the full scan,
  returns no finding.
\<close>

theorem compareFunctions_exact_match_silent:
  assumes docs: "buildDocByName (extractDocFunctions docEntries) = Inr docByName"
      and d: "d \<in> set (extractDocFunctions docEntries)" "df_name d = ent_name fn"
      and same: "normalizeParamList (df_params d)
                 = normalizeParamList (extractSignatureParams (ent_signature fn))"
  shows "(\<exists>st'. functionStep sev docByName st fn = Inr st' \<and> fl_results st' = fl_results st
               \<and> ent_name fn \<in> fl_codeNames st')
       \<and> (ent_type fn = ''function'' \<longrightarrow> compareFunctions [fn] docEntries sev False = Inr [])"
proof -
  from foldE_addDoc_member[OF docs[unfolded buildDocByName_def] d(1)] d(2)
  obtain ps vs v where a: "normalizeParamList (df_params d) = Inr ps"
      "docByName (ent_name fn) = Some vs" "v \<in> set vs" "dv_params v = ps" by auto
  have code: "normalizeParamList (extractSignatureParams (ent_signature fn)) = Inr ps"
    using same a(1) by simp
  have ne: "vs \<noteq> []" using a(3) by auto
  have ex: "\<exists>variant \<in> set vs. paramKey (dv_params variant) = paramKey ps"
    using a(3,4) by blast
  have step: "\<And>s. \<exists>st'. functionStep sev docByName s fn = Inr st'
                        \<and> fl_results st' = fl_results s \<and> ent_name fn \<in> fl_codeNames st'"
    using code a(2) ne ex by (simp add: functionStep_def Let_def)
  have "compareFunctions [fn] docEntries sev False = Inr []" if "ent_type fn = ''function''"
  proof -
    from step[of "\<lparr> fl_results = [], fl_codeNames = {}, fl_seen = {} \<rparr>"]
    obtain st' where "functionStep sev docByName \<lparr> fl_results = [], fl_codeNames = {}, fl_seen = {} \<rparr> fn
                      = Inr st'" "fl_results st' = []"
      by auto
    then show ?thesis using that docs by (simp add: compareFunctions_def)
  qed
  then show ?thesis using step by blast
qed

theorem compareFunctions_exact_match_silent_witness:
  "compareFunctions
     [\<lparr> ent_type = ''function'', ent_name = ''createUser'',
        ent_signature = ''createUser(email, password)'', ent_file = ''src/users.js'',
        ent_line = 1 \<rparr>]
     [\<lparr> doc_file = ''README.md'', doc_content = ''Call createUser(email, password).'' \<rparr>]
     ''warning'' False = Inr []"
proof -
  let ?docs = "[\<lparr> doc_file = ''README.md'', doc_content = ''Call createUser(email, password).'' \<rparr>]"
  let ?d = "\<lparr> df_name = ''createUser'', df_params = ''email, password'',
              df_signature = ''createUser(email, password)'', df_file = ''README.md'' \<rparr>"
  let ?fn = "\<lparr> ent_type = ''function'', ent_name = ''createUser'',
          ent_signature = ''createUser(email, password)'', ent_file = ''src/users.js'',
          ent_line = 1 \<rparr>"
  let ?m = "[''createUser'' \<mapsto> [\<lparr> dv_params = [''email'', ''password''], dv_file = ''README.md'',
                               dv_signature = ''createUser(email, password)'' \<rparr>]]"
  have e: "extractDocFunctions ?docs = [?d]" by code_simp
  have p: "normalizeParamList ''email, password'' = Inr [''email'', ''password'']" by code_simp
  have docs: "buildDocByName (extractDocFunctions ?docs) = Inr ?m"
    unfolding e by (simp add: buildDocByName_def addDocFunction_def p)
  have mem: "?d \<in> set (extractDocFunctions ?docs)" unfolding e by simp
  have sig: "extractSignatureParams ''createUser(email, password)'' = ''email, password''"
    by code_simp
  have same: "normalizeParamList (df_params ?d)
              = normalizeParamList (extractSignatureParams (ent_signature ?fn))"
    by (simp del: extractSignatureParams.simps add: sig)
  from compareFunctions_exact_match_silent[OF docs mem _ same, of "''warning''"]
  show ?thesis by simp
qed

section \<open>The best-matching documented variant\<close>

text \<open>
  Claim C1. The claim says that the documented variant with the highest score
  \<open>2 * |intersection| - (|code only| + |doc only|)\<close> is chosen. For the code function
  \<open>update(a, b, c, d)\<close> and the documented variants \<open>update(x)\<close> (score \<open>-5\<close>) and
  \<open>update(a)\<close> (score \<open>-1\<close>), \<open>chooseBestParamMatch\<close> returns the first variant, since
  \<open>bestScore\<close> starts at \<open>-1\<close> and no score exceeds it; the finding is
  \<open>function-signature-mismatch\<close>, where the variant with the highest score gives
  \<open>function-missing-params\<close>.
\<close>

theorem chooseBestParamMatch_ignores_negative_scores:
  "extractDocFunctions
       [\<lparr> doc_file = ''README.md'',
          doc_content = ''Use update(x) for one field; update(a) is the short form.'' \<rparr>]
     = [\<lparr> df_name = ''update'', df_params = ''x'', df_signature = ''update(x)'',
          df_file = ''README.md'' \<rparr>,
        \<lparr> df_name = ''update'', df_params = ''a'', df_signature = ''update(a)'',
          df_file = ''README.md'' \<rparr>]
   \<and> paramScore [''a'', ''b'', ''c'', ''d'']
      \<lparr> dv_params = [''x''], dv_file = ''README.md'', dv_signature = ''update(x)'' \<rparr> = - 5
   \<and> paramScore [''a'', ''b'', ''c'', ''d'']
      \<lparr> dv_params = [''a''], dv_file = ''README.md'', dv_signature = ''update(a)'' \<rparr> = - 1
   \<and> chooseBestParamMatch [''a'', ''b'', ''c'', ''d'']
        [\<lparr> dv_params = [''x''], dv_file = ''README.md'', dv_signature = ''update(x)'' \<rparr>,
         \<lparr> dv_params = [''a''], dv_file = ''README.md'', dv_signature = ''update(a)'' \<rparr>]
       = Some \<lparr> dv_params = [''x''], dv_file = ''README.md'', dv_signature = ''update(x)'' \<rparr>
   \<and> compareFunctions
         [\<lparr> ent_type = ''function'', ent_name = ''update'',
            ent_signature = ''update(a, b, c, d)'', ent_file = ''src/a.js'', ent_line = 1 \<rparr>]
         [\<lparr> doc_file = ''README.md'',
            doc_content = ''Use update(x) for one field; update(a) is the short form.'' \<rparr>]
         ''warning'' False
       = Inr [\<lparr> f_source = ''docs-drift'', f_type = ''function-signature-mismatch'',
                f_severity = ''warning'', f_deterministic = True, f_rule = [],
                f_file = ''src/a.js'',
                f_explanation = ''Docs mention update(x) but code uses update(a, b, c, d).'',
                f_suggestion = ''Update docs or code to align parameters.'' \<rparr>]
   \<and> f_type (classifyFunction ''warning''
           \<lparr> ent_type = ''function'', ent_name = ''update'',
              ent_signature = ''update(a, b, c, d)'', ent_file = ''src/a.js'', ent_line = 1 \<rparr>
           [''a'', ''b'', ''c'', ''d'']
           \<lparr> dv_params = [''a''], dv_file = ''README.md'', dv_signature = ''update(a)'' \<rparr>)
       = ''function-missing-params''"
  by code_simp

section \<open>Both placeholder styles give one canonical path\<close>

lemma renderAtoms_simps [simp]:
  "renderAtoms h [] = []"
  "renderAtoms h (a # as) = renderAtom h a @ renderAtoms h as"
  "renderAtoms h (as @ bs) = renderAtoms h as @ renderAtoms h bs"
  by (simp_all add: renderAtoms_def)

lemma renderPart_atoms: "renderPart style p = renderAtoms (holeText style) (atomsOf p)"
proof (cases p)
  case (Literal s)
  then show ?thesis by (induction s arbitrary: p) auto
next
  case (Placeholder n)
  then show ?thesis by (cases style) auto
qed

lemma renderPath_atoms:
  "renderPath style parts = renderAtoms (holeText style) (concat (map atomsOf parts))"
  by (induction parts) (auto simp: renderPath_def renderPart_atoms)

lemma wellFormed_atoms:
  "wellFormedPath parts \<Longrightarrow> list_all wellFormedAtom (concat (map atomsOf parts))"
proof (induction parts)
  case Nil
  then show ?case by simp
next
  case (Cons p ps)
  then have "wellFormedPart p" and "wellFormedPath ps" by (simp_all add: wellFormedPath_def)
  moreover have "wellFormedPart p \<Longrightarrow> list_all wellFormedAtom (atomsOf p)"
    by (cases p) (auto simp: list_all_iff)
  ultimately show ?case using Cons.IH by simp
qed

lemma dropWhile_renderAtoms:
  assumes "\<And>n. Hole n \<in> set as \<Longrightarrow> h n \<noteq> [] \<and> \<not> P (hd (h n))"
  shows "dropWhile P (renderAtoms h as) = renderAtoms h (dropWhile (atomIs P) as)"
  using assms
proof (induction as)
  case Nil
  then show ?case by simp
next
  case (Cons a as)
  show ?case
  proof (cases a)
    case (Ch c)
    then show ?thesis using Cons by simp
  next
    case (Hole n)
    then have "h n \<noteq> []" "\<not> P (hd (h n))" using Cons.prems by simp_all
    then have "dropWhile P (h n @ renderAtoms h as) = h n @ renderAtoms h as"
      by (cases "h n") auto
    then show ?thesis using Hole by simp
  qed
qed

lemma rev_renderAtoms:
  "rev (renderAtoms h as) = renderAtoms (\<lambda>n. rev (h n)) (rev as)"
proof (induction as)
  case Nil
  then show ?case by simp
next
  case (Cons a as)
  then show ?case by (cases a) auto
qed

lemma dropWhile_end_renderAtoms:
  assumes "\<And>n. Hole n \<in> set as \<Longrightarrow> h n \<noteq> [] \<and> \<not> P (last (h n))"
  shows "rev (dropWhile P (rev (renderAtoms h as)))
         = renderAtoms h (rev (dropWhile (atomIs P) (rev as)))"
proof -
  have "dropWhile P (renderAtoms (\<lambda>n. rev (h n)) (rev as))
        = renderAtoms (\<lambda>n. rev (h n)) (dropWhile (atomIs P) (rev as))"
    using assms by (intro dropWhile_renderAtoms) (auto simp: hd_rev)
  then have "rev (dropWhile P (rev (renderAtoms h as)))
        = rev (renderAtoms (\<lambda>n. rev (h n)) (dropWhile (atomIs P) (rev as)))"
    by (simp add: rev_renderAtoms)
  also have "\<dots> = renderAtoms (\<lambda>n. rev (rev (h n))) (rev (dropWhile (atomIs P) (rev as)))"
    by (rule rev_renderAtoms)
  finally show ?thesis by simp
qed

lemma set_trimAtoms: "set (trimAtoms as) \<subseteq> set as"
proof -
  have a: "\<And>P xs. set (dropWhile P xs) \<subseteq> set xs" by (simp add: set_dropWhileD subsetI)
  have "set (trimAtoms as) \<subseteq> set (dropWhile (atomIs isSpace) (rev (dropWhile (atomIs isSpace) as)))"
    unfolding trimAtoms_def using a[of "atomIs (\<lambda>c. c = CHR ''/'')"] by (metis rev_rev_ident set_rev)
  also have "\<dots> \<subseteq> set (dropWhile (atomIs isSpace) as)"
    using a[of "atomIs isSpace" "rev (dropWhile (atomIs isSpace) as)"] by simp
  also have "\<dots> \<subseteq> set as" by (rule a)
  finally show ?thesis .
qed

lemma holeText_ends:
  assumes "wellFormedAtom (Hole n)"
  shows "holeText style n \<noteq> []" "\<not> isSpace (hd (holeText style n))"
        "\<not> isSpace (last (holeText style n))" "last (holeText style n) \<noteq> CHR ''/''"
proof -
  have n: "n \<noteq> []" "\<not> isSpace (last n)" "last n \<noteq> CHR ''/''"
    using assms last_in_set[of n] by auto
  show "holeText style n \<noteq> []" by (cases style) auto
  show "\<not> isSpace (hd (holeText style n))" by (cases style) (auto simp: isSpace_def)
  show "\<not> isSpace (last (holeText style n))" using n by (cases style) (auto simp: isSpace_def)
  show "last (holeText style n) \<noteq> CHR ''/''" using n by (cases style) auto
qed

lemma trim_strip_renderAtoms:
  assumes wf: "list_all wellFormedAtom as"
  shows "stripTrailingSlashes (trim (renderAtoms (holeText style) as))
         = renderAtoms (holeText style) (trimAtoms as)"
proof -
  let ?h = "holeText style"
  have holes: "\<And>n. Hole n \<in> set as \<Longrightarrow> wellFormedAtom (Hole n)"
    using wf unfolding list_all_iff by blast
  let ?a1 = "dropWhile (atomIs isSpace) as"
  have s1: "dropWhile isSpace (renderAtoms ?h as) = renderAtoms ?h ?a1"
    using holes holeText_ends by (intro dropWhile_renderAtoms) blast
  have sub1: "set ?a1 \<subseteq> set as" by (simp add: set_dropWhileD subsetI)
  let ?a2 = "rev (dropWhile (atomIs isSpace) (rev ?a1))"
  have s2: "rev (dropWhile isSpace (rev (renderAtoms ?h ?a1))) = renderAtoms ?h ?a2"
    using holes holeText_ends sub1 by (intro dropWhile_end_renderAtoms) blast
  have sub2: "set ?a2 \<subseteq> set as"
    using sub1 set_dropWhileD[of _ "atomIs isSpace" "rev ?a1"] by auto
  have s3: "rev (dropWhile (\<lambda>c. c = CHR ''/'') (rev (renderAtoms ?h ?a2)))
            = renderAtoms ?h (rev (dropWhile (atomIs (\<lambda>c. c = CHR ''/'')) (rev ?a2)))"
    using holes holeText_ends sub2 by (intro dropWhile_end_renderAtoms) blast
  show ?thesis
    using s1 s2 s3 by (simp add: trim_def stripTrailingSlashes_def trimAtoms_def)
qed


lemma replaceBraces_absent: "CHR ''{'' \<notin> set s \<Longrightarrow> replaceBraces s = s"
  by (induction s) auto

lemma takeWhile_upto: "c \<notin> set n \<Longrightarrow> takeWhile (\<lambda>d. d \<noteq> c) (n @ c # rest) = n"
  by (induction n) auto

lemma dropWhile_upto: "c \<notin> set n \<Longrightarrow> dropWhile (\<lambda>d. d \<noteq> c) (n @ c # rest) = c # rest"
  by (induction n) auto

lemma dropWhile_over: "c \<notin> set n \<Longrightarrow> dropWhile (\<lambda>d. d \<noteq> c) (n @ rest) = dropWhile (\<lambda>d. d \<noteq> c) rest"
  by (induction n) auto

lemma takeWhile_over: "n \<noteq> [] \<Longrightarrow> c \<notin> set n \<Longrightarrow> takeWhile (\<lambda>d. d \<noteq> c) (n @ rest) \<noteq> []"
  by (cases n) auto

lemma takeWhile_nonempty: "(takeWhile P xs \<noteq> []) = (xs \<noteq> [] \<and> P (hd xs))"
  by (cases xs) auto

lemma replaceBraces_renderAtoms:
  "list_all wellFormedAtom as \<Longrightarrow>
   replaceBraces (renderAtoms (holeText Braces) as) = renderAtoms (\<lambda>n. '':param'') as"
proof (induction as)
  case Nil
  then show ?case by simp
next
  case (Cons a as)
  show ?case
  proof (cases a)
    case (Ch c)
    then show ?thesis using Cons by simp
  next
    case (Hole n)
    then have n: "n \<noteq> []" "CHR ''}'' \<notin> set n" using Cons.prems by auto
    let ?rest = "renderAtoms (holeText Braces) as"
    have "replaceBraces (CHR ''{'' # n @ CHR ''}'' # ?rest) = '':param'' @ replaceBraces ?rest"
      using n by (simp add: takeWhile_upto dropWhile_upto)
    then show ?thesis using Hole Cons by simp
  qed
qed

lemma replaceBraces_colons:
  "list_all wellFormedAtom as \<Longrightarrow>
   replaceBraces (renderAtoms (holeText Colons) as) = renderAtoms (holeText Colons) as"
proof (rule replaceBraces_absent, induction as)
  case Nil
  then show ?case by simp
next
  case (Cons a as)
  then show ?case by (cases a) auto
qed

lemma replaceColons_holes:
  assumes "\<And>n. Hole n \<in> set as \<Longrightarrow>
             f n \<noteq> [] \<and> CHR ''/'' \<notin> set (f n) \<and> g n \<noteq> [] \<and> CHR ''/'' \<notin> set (g n)"
  shows "replaceColons (renderAtoms (\<lambda>n. CHR '':'' # f n) as)
         = replaceColons (renderAtoms (\<lambda>n. CHR '':'' # g n) as)
       \<and> replaceColons (dropWhile (\<lambda>d. d \<noteq> CHR ''/'') (renderAtoms (\<lambda>n. CHR '':'' # f n) as))
         = replaceColons (dropWhile (\<lambda>d. d \<noteq> CHR ''/'') (renderAtoms (\<lambda>n. CHR '':'' # g n) as))
       \<and> (renderAtoms (\<lambda>n. CHR '':'' # f n) as = [] \<longleftrightarrow> renderAtoms (\<lambda>n. CHR '':'' # g n) as = [])
       \<and> (renderAtoms (\<lambda>n. CHR '':'' # f n) as \<noteq> [] \<longrightarrow>
            hd (renderAtoms (\<lambda>n. CHR '':'' # f n) as) = hd (renderAtoms (\<lambda>n. CHR '':'' # g n) as))"
  using assms
proof (induction as)
  case Nil
  then show ?case by simp
next
  case (Cons a as)
  let ?F = "renderAtoms (\<lambda>n. CHR '':'' # f n) as" and ?G = "renderAtoms (\<lambda>n. CHR '':'' # g n) as"
  let ?skip = "dropWhile (\<lambda>d. d \<noteq> CHR ''/'')"
  have IH: "replaceColons ?F = replaceColons ?G" "replaceColons (?skip ?F) = replaceColons (?skip ?G)"
      "?F = [] \<longleftrightarrow> ?G = []" "?F \<noteq> [] \<Longrightarrow> hd ?F = hd ?G"
    using Cons by simp_all
  show ?case
  proof (cases a)
    case (Ch c)
    have look: "(takeWhile (\<lambda>d. d \<noteq> CHR ''/'') ?F \<noteq> []) = (takeWhile (\<lambda>d. d \<noteq> CHR ''/'') ?G \<noteq> [])"
      using IH(3,4) by (auto simp: takeWhile_nonempty)
    have 1: "replaceColons (c # ?F) = replaceColons (c # ?G)"
      using IH(1,2) look by simp
    have 2: "replaceColons (?skip (c # ?F)) = replaceColons (?skip (c # ?G))"
      using IH(1,2) look by simp
    show ?thesis using Ch 1 2 by simp
  next
    case (Hole n)
    then have sf: "f n \<noteq> []" "CHR ''/'' \<notin> set (f n)" "g n \<noteq> []" "CHR ''/'' \<notin> set (g n)"
      using Cons.prems by simp_all
    have 1: "replaceColons (CHR '':'' # f n @ ?F) = '':param'' @ replaceColons (?skip ?F)"
      using sf by (simp add: takeWhile_over dropWhile_over)
    have 2: "replaceColons (CHR '':'' # g n @ ?G) = '':param'' @ replaceColons (?skip ?G)"
      using sf by (simp add: takeWhile_over dropWhile_over)
    have 3: "?skip (CHR '':'' # f n @ ?F) = ?skip ?F" "?skip (CHR '':'' # g n @ ?G) = ?skip ?G"
      using sf by (simp_all add: dropWhile_over)
    have r: "renderAtoms (\<lambda>n. CHR '':'' # f n) (a # as) = CHR '':'' # f n @ ?F"
            "renderAtoms (\<lambda>n. CHR '':'' # g n) (a # as) = CHR '':'' # g n @ ?G"
      using Hole by simp_all
    show ?thesis unfolding r 1 2 3 using IH(2) by simp
  qed
qed

lemma normalizePath_renderAtoms:
  assumes wf: "list_all wellFormedAtom as"
  shows "normalizePath (renderAtoms (holeText Braces) as)
         = normalizePath (renderAtoms (holeText Colons) as)"
proof -
  let ?t = "trimAtoms as"
  have wft: "list_all wellFormedAtom ?t"
    using wf set_trimAtoms[of as] unfolding list_all_iff by blast
  have holes: "\<And>n. Hole n \<in> set ?t \<Longrightarrow>
      '':param'' \<noteq> [] \<and> CHR ''/'' \<notin> set ''param'' \<and> n \<noteq> [] \<and> CHR ''/'' \<notin> set n"
    using wft unfolding list_all_iff by fastforce
  have colons: "holeText Colons = (\<lambda>n. CHR '':'' # n)" by (rule ext) simp
  have b: "replaceColons (replaceBraces (stripTrailingSlashes (trim (renderAtoms (holeText Braces) as))))
           = replaceColons (renderAtoms (\<lambda>n. CHR '':'' # ''param'') ?t)"
    using wf wft by (simp add: trim_strip_renderAtoms replaceBraces_renderAtoms)
  have c: "replaceColons (replaceBraces (stripTrailingSlashes (trim (renderAtoms (holeText Colons) as))))
           = replaceColons (renderAtoms (holeText Colons) ?t)"
    using wf wft by (simp add: trim_strip_renderAtoms replaceBraces_colons)
  have e: "replaceColons (renderAtoms (\<lambda>n. CHR '':'' # ''param'') ?t)
           = replaceColons (renderAtoms (holeText Colons) ?t)"
    using replaceColons_holes[of ?t "\<lambda>n. ''param''" "\<lambda>n. n"] holes by (simp add: colons)
  have empty: "renderAtoms (holeText Braces) as = [] \<longleftrightarrow> renderAtoms (holeText Colons) as = []"
  proof (cases as)
    case Nil
    then show ?thesis by simp
  next
    case (Cons a list)
    then show ?thesis by (cases a) auto
  qed
  show ?thesis
    unfolding normalizePath_def Let_def b c e using empty by simp
qed

lemma normalizePath_styles_agree:
  assumes "wellFormedPath parts"
  shows "normalizePath (renderPath Braces parts) = normalizePath (renderPath Colons parts)"
  using assms by (simp add: renderPath_atoms normalizePath_renderAtoms wellFormed_atoms)

text \<open>
  Claim C4. A path template written with \<open>{name}\<close> placeholders and the same template
  written with \<open>:name\<close> placeholders have the same \<open>normalizePath\<close> (literal text has no
  opening brace; a name is not empty and has no slash, brace or white space). Each
  placeholder of \<open>/users/{id}/\<close> and \<open>/users/:id\<close> becomes \<open>:param\<close> and the trailing slash
  goes, so the code endpoint \<open>GET /users/:id\<close> compared with documentation that
  mentions \<open>GET /users/{id}\<close> gives no finding, with or without the full scan.
\<close>

theorem normalizePath_placeholder_styles:
  assumes "wellFormedPath parts"
  shows "normalizePath (renderPath Braces parts) = normalizePath (renderPath Colons parts)
       \<and> normalizePath ''/users/{id}/'' = ''/users/:param''
       \<and> normalizePath ''/users/:id'' = ''/users/:param''
       \<and> compareEndpoints
            [\<lparr> ent_type = ''endpoint'', ent_name = ''GET /users/:id'',
               ent_signature = ''GET /users/:id'', ent_file = ''src/routes.js'', ent_line = 1 \<rparr>]
            [\<lparr> doc_file = ''README.md'', doc_content = ''Fetch a user with GET /users/{id}'' \<rparr>]
            ''warning'' False = []
       \<and> compareEndpoints
            [\<lparr> ent_type = ''endpoint'', ent_name = ''GET /users/:id'',
               ent_signature = ''GET /users/:id'', ent_file = ''src/routes.js'', ent_line = 1 \<rparr>]
            [\<lparr> doc_file = ''README.md'', doc_content = ''Fetch a user with GET /users/{id}'' \<rparr>]
            ''warning'' True = []"
proof -
  have "normalizePath ''/users/{id}/'' = ''/users/:param''" by code_simp
  moreover have "normalizePath ''/users/:id'' = ''/users/:param''" by code_simp
  moreover have "compareEndpoints
            [\<lparr> ent_type = ''endpoint'', ent_name = ''GET /users/:id'',
               ent_signature = ''GET /users/:id'', ent_file = ''src/routes.js'', ent_line = 1 \<rparr>]
            [\<lparr> doc_file = ''README.md'', doc_content = ''Fetch a user with GET /users/{id}'' \<rparr>]
            ''warning'' False = []" by code_simp
  moreover have "compareEndpoints
            [\<lparr> ent_type = ''endpoint'', ent_name = ''GET /users/:id'',
               ent_signature = ''GET /users/:id'', ent_file = ''src/routes.js'', ent_line = 1 \<rparr>]
            [\<lparr> doc_file = ''README.md'', doc_content = ''Fetch a user with GET /users/{id}'' \<rparr>]
            ''warning'' True = []" by code_simp
  ultimately show ?thesis using normalizePath_styles_agree[OF assms] by blast
qed

theorem normalizePath_placeholder_styles_witness:
  "wellFormedPath [Literal ''/api/users/'', Placeholder ''userId'', Literal ''/posts/'',
                   Placeholder ''post-id'', Literal ''/'']
   \<and> renderPath Braces [Literal ''/api/users/'', Placeholder ''userId'', Literal ''/posts/'',
                         Placeholder ''post-id'', Literal ''/'']
       = ''/api/users/{userId}/posts/{post-id}/''
   \<and> renderPath Colons [Literal ''/api/users/'', Placeholder ''userId'', Literal ''/posts/'',
                         Placeholder ''post-id'', Literal ''/'']
       = ''/api/users/:userId/posts/:post-id/''
   \<and> normalizePath ''/api/users/{userId}/posts/{post-id}/''
       = normalizePath ''/api/users/:userId/posts/:post-id/''
   \<and> normalizePath ''/api/users/:userId/posts/:post-id/'' = ''/api/users/:param/posts/:param''"
proof -
  let ?parts = "[Literal ''/api/users/'', Placeholder ''userId'', Literal ''/posts/'',
                 Placeholder ''post-id'', Literal ''/'']"
  have wf: "wellFormedPath ?parts" by code_simp
  have b: "renderPath Braces ?parts = ''/api/users/{userId}/posts/{post-id}/''" by code_simp
  have c: "renderPath Colons ?parts = ''/api/users/:userId/posts/:post-id/''" by code_simp
  have n: "normalizePath ''/api/users/:userId/posts/:post-id/'' = ''/api/users/:param/posts/:param''"
    by code_simp
  from normalizePath_placeholder_styles[OF wf]
  have "normalizePath (renderPath Braces ?parts) = normalizePath (renderPath Colons ?parts)"
    by blast
  then show ?thesis using wf n unfolding b c by blast
qed

section \<open>The safety screen leaves the match position clean\<close>

lemma probeStep_keeps:
  "probeStep rt b regex t = Inr regex' \<Longrightarrow>
   rx_source regex' = rx_source regex \<and> rx_flags regex' = rx_flags regex"
  by (auto simp: probeStep_def test_def exec_def Let_def split: if_splits prod.splits)

lemma probes_keep:
  "foldE (probeStep rt b) ts regex = Inr regex' \<Longrightarrow>
   rx_source regex' = rx_source regex \<and> rx_flags regex' = rx_flags regex"
proof (induction ts arbitrary: regex)
  case Nil
  then show ?case by simp
next
  case (Cons t ts)
  then obtain r1 where r1: "probeStep rt b regex t = Inr r1" and rest: "foldE (probeStep rt b) ts r1 = Inr regex'"
    by (auto split: sum.splits)
  from Cons.IH[OF rest] probeStep_keeps[OF r1] show ?case by simp
qed

text \<open>
  Claim C9. When \<open>validateRegexSafety\<close> accepts a regular expression that has the \<open>g\<close>
  or the \<open>y\<close> flag, the regular expression it returns has \<open>lastIndex\<close> 0, whatever
  the probes left there; its source and flags are those of the argument.
\<close>

theorem validateRegexSafety_resets_lastIndex:
  assumes "validateRegexSafety rt regex = Inr validated"
      and "rx_global regex \<or> rx_sticky regex"
  shows "rx_lastIndex validated = 0 \<and> rx_source validated = rx_source regex
         \<and> rx_flags validated = rx_flags regex"
proof -
  from assms obtain probed where p: "foldE (probeStep rt True) testCases regex = Inr probed"
      and v: "validated = probed\<lparr> rx_lastIndex := 0 \<rparr>"
    by (auto simp: validateRegexSafety_def split: sum.splits)
  from probes_keep[OF p] v show ?thesis by simp
qed

theorem validateRegexSafety_resets_lastIndex_witness:
  "validateRegexSafety exampleRuntime \<lparr> rx_source = ''a'', rx_flags = ''g'', rx_lastIndex = 5 \<rparr>
     = Inr \<lparr> rx_source = ''a'', rx_flags = ''g'', rx_lastIndex = 0 \<rparr>
   \<and> snd (test exampleRuntime \<lparr> rx_source = ''a'', rx_flags = ''g'', rx_lastIndex = 0 \<rparr>
             ''aaaaaaaaaaaaaaaaaX'')
     = \<lparr> rx_source = ''a'', rx_flags = ''g'', rx_lastIndex = 1 \<rparr>"
proof -
  have v: "validateRegexSafety exampleRuntime \<lparr> rx_source = ''a'', rx_flags = ''g'', rx_lastIndex = 5 \<rparr>
     = Inr \<lparr> rx_source = ''a'', rx_flags = ''g'', rx_lastIndex = 0 \<rparr>"
    by code_simp
  have g: "rx_global \<lparr> rx_source = ''a'', rx_flags = ''g'', rx_lastIndex = 5 \<rparr>"
    by (simp add: rx_global_def)
  have t: "snd (test exampleRuntime \<lparr> rx_source = ''a'', rx_flags = ''g'', rx_lastIndex = 0 \<rparr>
             ''aaaaaaaaaaaaaaaaaX'')
     = \<lparr> rx_source = ''a'', rx_flags = ''g'', rx_lastIndex = 1 \<rparr>"
    by code_simp
  from validateRegexSafety_resets_lastIndex[OF v] g v t show ?thesis by simp
qed

section \<open>Comparing code values with policy values\<close>

lemma mismatchKey_inject:
  "mismatchKey label v policyValues = mismatchKey label v' policyValues \<Longrightarrow> v = v'"
  by (simp add: mismatchKey_def)

lemma mismatch_fold:
  fixes rt compare valueType severity ruleName fileName label policyValues
  defines "step \<equiv> (\<lambda>codeValue s. mismatchStep rt compare valueType severity ruleName fileName label
                                   policyValues s codeValue)"
      and "failing \<equiv> (\<lambda>v. \<not> satisfied rt compare valueType policyValues v)"
      and "key \<equiv> (\<lambda>v. mismatchKey label v policyValues)"
      and "mk \<equiv> mismatchFinding severity ruleName fileName label policyValues"
  shows "\<exists>new. cs_results (fold step codeValues st) = cs_results st @ new
              \<and> set new = mk ` {v \<in> set codeValues. failing v \<and> key v \<notin> cs_seen st}
              \<and> cs_seen (fold step codeValues st)
                  = cs_seen st \<union> key ` {v \<in> set codeValues. failing v}"
proof (induction codeValues arbitrary: st)
  case Nil
  then show ?case by simp
next
  case (Cons v vs)
  let ?st1 = "step v st"
  from Cons[of ?st1] obtain new where
      r: "cs_results (fold step vs ?st1) = cs_results ?st1 @ new"
      and n: "set new = mk ` {u \<in> set vs. failing u \<and> key u \<notin> cs_seen ?st1}"
      and s: "cs_seen (fold step vs ?st1) = cs_seen ?st1 \<union> key ` {u \<in> set vs. failing u}"
    by blast
  show ?case
  proof (cases "failing v \<and> key v \<notin> cs_seen st")
    case True
    then have st1: "cs_results ?st1 = cs_results st @ [mk v]" "cs_seen ?st1 = insert (key v) (cs_seen st)"
      by (simp_all add: step_def failing_def key_def mk_def mismatchStep_def Let_def)
    have inj: "\<And>u. key u = key v \<Longrightarrow> u = v"
      unfolding key_def by (rule mismatchKey_inject)
    have "set ([mk v] @ new) = mk ` {u \<in> set (v # vs). failing u \<and> key u \<notin> cs_seen st}"
      using True n st1(2) inj by auto
    moreover have "cs_results (fold step (v # vs) st) = cs_results st @ ([mk v] @ new)"
      using r st1(1) by simp
    moreover have "cs_seen (fold step (v # vs) st)
                   = cs_seen st \<union> key ` {u \<in> set (v # vs). failing u}"
      using s st1(2) True by auto
    ultimately show ?thesis by blast
  next
    case False
    then have st1: "?st1 = st"
      by (auto simp: step_def failing_def key_def mismatchStep_def Let_def)
    have "set new = mk ` {u \<in> set (v # vs). failing u \<and> key u \<notin> cs_seen st}"
      using False n st1 by auto
    moreover have "cs_results (fold step (v # vs) st) = cs_results st @ new"
      using r st1 by simp
    moreover have "cs_seen (fold step (v # vs) st)
                   = cs_seen st \<union> key ` {u \<in> set (v # vs). failing u}"
    proof (cases "failing v")
      case True
      then have "key v \<in> cs_seen st" using False by simp
      then show ?thesis using s st1 by auto
    next
      case False
      then show ?thesis using s st1 by auto
    qed
    ultimately show ?thesis by blast
  qed
qed


lemma isInfix_iff: "isInfix part s \<longleftrightarrow> (\<exists>pre post. s = pre @ part @ post)"
proof
  assume "isInfix part s"
  then obtain i where i: "take (length part) (drop i s) = part"
    by (auto simp: isInfix_def startsWith_def list_ex_iff)
  have "s = take i s @ take (length part) (drop i s) @ drop (length part) (drop i s)"
    by (simp only: append_take_drop_id)
  then show "\<exists>pre post. s = pre @ part @ post" using i by metis
next
  assume "\<exists>pre post. s = pre @ part @ post"
  then obtain pre post where s: "s = pre @ part @ post" by blast
  then have "take (length part) (drop (length pre) s) = part" "length pre < Suc (length s)"
    by simp_all
  then show "isInfix part s"
    unfolding isInfix_def startsWith_def list_ex_iff by (metis atLeastLessThan_iff le0 set_upt)
qed

lemma normalizeValue_numeric:
  "valueType \<noteq> ''string'' \<Longrightarrow> parseNumber rt v = Finite a \<Longrightarrow>
   normalizeValue rt v valueType = (Finite a, trim v)"
  by (simp add: normalizeValue_def isFinite_def)

lemma normalizeValue_text:
  "valueType = ''string'' \<or> \<not> isFinite (parseNumber rt v) \<Longrightarrow>
   snd (normalizeValue rt v valueType) = trim v \<and> \<not> isFinite (fst (normalizeValue rt v valueType))"
  by (auto simp: normalizeValue_def isFinite_def Let_def)

lemma normalizeValue_snd: "snd (normalizeValue rt v valueType) = trim v"
  by (simp add: normalizeValue_def Let_def)

lemma compareValues_numeric:
  assumes "valueType \<noteq> ''string''" "parseNumber rt codeValue = Finite a"
          "parseNumber rt policyValue = Finite b"
  shows "compareValues rt codeValue policyValue compare valueType =
        (if compare = ''eq'' \<or> compare = ''equals'' then a = b
         else if compare = ''not_equals'' \<or> compare = ''ne'' then a \<noteq> b
         else if compare = ''gt'' then b < a
         else if compare = ''gte'' \<or> compare = ''ge'' then b \<le> a
         else if compare = ''lt'' then a < b
         else if compare = ''lte'' \<or> compare = ''le'' then a \<le> b
         else a = b)"
  unfolding compareValues_def normalizeValue_numeric[OF assms(1,2)] normalizeValue_numeric[OF assms(1,3)]
  by (simp add: isFinite_def numericValue_def)

lemma compareValues_text:
  assumes "valueType = ''string'' \<or> \<not> isFinite (parseNumber rt codeValue)
           \<or> \<not> isFinite (parseNumber rt policyValue)"
  shows "compareValues rt codeValue policyValue compare valueType =
        (if compare = ''not_equals'' \<or> compare = ''ne''
           then toLowerCase (trim codeValue) \<noteq> toLowerCase (trim policyValue)
         else if compare = ''contains''
           then (\<exists>pre post. toLowerCase (trim codeValue) = pre @ toLowerCase (trim policyValue) @ post)
                \<or> (\<exists>pre post. toLowerCase (trim policyValue) = pre @ toLowerCase (trim codeValue) @ post)
         else toLowerCase (trim codeValue) = toLowerCase (trim policyValue))"
proof -
  obtain cn ct pn pt where c: "normalizeValue rt codeValue valueType = (cn, ct)"
      and p: "normalizeValue rt policyValue valueType = (pn, pt)"
    by fastforce
  have texts: "ct = trim codeValue" "pt = trim policyValue"
    using c p normalizeValue_snd[of rt codeValue valueType] normalizeValue_snd[of rt policyValue valueType]
    by simp_all
  have "(isFinite cn \<and> isFinite pn) = False"
  proof (cases "valueType = ''string''")
    case True
    then show ?thesis using c by (simp add: normalizeValue_def isFinite_def)
  next
    case False
    then consider "\<not> isFinite (parseNumber rt codeValue)" | "\<not> isFinite (parseNumber rt policyValue)"
      using assms by blast
    then show ?thesis
    proof cases
      case 1
      then show ?thesis using normalizeValue_text[of valueType rt codeValue] c by simp
    next
      case 2
      then show ?thesis using normalizeValue_text[of valueType rt policyValue] p by simp
    qed
  qed
  then show ?thesis
    unfolding compareValues_def c p texts by (simp only: isInfix_iff Let_def prod.case if_False)
qed

text \<open>
  Claim C3, as amended. Unless the value type is \<open>string\<close>, two values that both parse
  as finite numbers (after commas, spaces and underscores are removed) are compared
  as numbers: \<open>eq\<close>/\<open>equals\<close>, \<open>not_equals\<close>/\<open>ne\<close>, \<open>gt\<close>, \<open>gte\<close>/\<open>ge\<close>, \<open>lt\<close>,
  \<open>lte\<close>/\<open>le\<close>, and equality for any other operator. With the value type \<open>string\<close>, or
  when one of the two is not a finite number, the trimmed texts are compared without
  regard to case: \<open>not_equals\<close>/\<open>ne\<close> is inequality, \<open>contains\<close> holds when one text
  contains the other, every other operator is equality. When at least one policy
  value was extracted, the findings that the comparison appends are the
  \<open>policy-value-mismatch\<close> findings of exactly the code values that fail the operator
  against every policy value and whose key (label, code value, policy values) was
  not seen before.
\<close>

theorem compareValues_semantics:
  "(valueType \<noteq> ''string'' \<and> parseNumber rt codeValue = Finite a
      \<and> parseNumber rt policyValue = Finite b \<longrightarrow>
    compareValues rt codeValue policyValue compare valueType =
      (if compare = ''eq'' \<or> compare = ''equals'' then a = b
       else if compare = ''not_equals'' \<or> compare = ''ne'' then a \<noteq> b
       else if compare = ''gt'' then b < a
       else if compare = ''gte'' \<or> compare = ''ge'' then b \<le> a
       else if compare = ''lt'' then a < b
       else if compare = ''lte'' \<or> compare = ''le'' then a \<le> b
       else a = b))
   \<and> (valueType = ''string'' \<or> \<not> isFinite (parseNumber rt codeValue)
        \<or> \<not> isFinite (parseNumber rt policyValue) \<longrightarrow>
      compareValues rt codeValue policyValue compare valueType =
        (if compare = ''not_equals'' \<or> compare = ''ne''
           then toLowerCase (trim codeValue) \<noteq> toLowerCase (trim policyValue)
         else if compare = ''contains''
           then (\<exists>pre post. toLowerCase (trim codeValue) = pre @ toLowerCase (trim policyValue) @ post)
                \<or> (\<exists>pre post. toLowerCase (trim policyValue) = pre @ toLowerCase (trim codeValue) @ post)
         else toLowerCase (trim codeValue) = toLowerCase (trim policyValue)))
   \<and> (policyValues \<noteq> [] \<longrightarrow>
      (\<exists>new. cs_results (compareExtracted rt cmp logicDrift ruleName fileName codeValues policyValues st)
               = cs_results st @ new
            \<and> set new =
                mismatchFinding (normalizeSeverity (cmp_severity cmp) logicDrift) ruleName fileName
                  (orDefault (cmp_name cmp) (orDefault (cmp_label cmp) ruleName)) policyValues
                ` {v \<in> set codeValues.
                     (\<forall>p \<in> set policyValues.
                        \<not> compareValues rt v p (toLowerCase (orDefault (cmp_compare cmp) ''equals''))
                             (toLowerCase (orDefault (cmp_valueType cmp) ''auto'')))
                     \<and> mismatchKey (orDefault (cmp_name cmp) (orDefault (cmp_label cmp) ruleName))
                          v policyValues \<notin> cs_seen st}))"
proof (intro conjI impI)
  assume "valueType \<noteq> ''string'' \<and> parseNumber rt codeValue = Finite a
      \<and> parseNumber rt policyValue = Finite b"
  then show "compareValues rt codeValue policyValue compare valueType =
      (if compare = ''eq'' \<or> compare = ''equals'' then a = b
       else if compare = ''not_equals'' \<or> compare = ''ne'' then a \<noteq> b
       else if compare = ''gt'' then b < a
       else if compare = ''gte'' \<or> compare = ''ge'' then b \<le> a
       else if compare = ''lt'' then a < b
       else if compare = ''lte'' \<or> compare = ''le'' then a \<le> b
       else a = b)"
    using compareValues_numeric by blast
next
  assume "valueType = ''string'' \<or> \<not> isFinite (parseNumber rt codeValue)
        \<or> \<not> isFinite (parseNumber rt policyValue)"
  then show "compareValues rt codeValue policyValue compare valueType =
        (if compare = ''not_equals'' \<or> compare = ''ne''
           then toLowerCase (trim codeValue) \<noteq> toLowerCase (trim policyValue)
         else if compare = ''contains''
           then (\<exists>pre post. toLowerCase (trim codeValue) = pre @ toLowerCase (trim policyValue) @ post)
                \<or> (\<exists>pre post. toLowerCase (trim policyValue) = pre @ toLowerCase (trim codeValue) @ post)
         else toLowerCase (trim codeValue) = toLowerCase (trim policyValue))"
    by (rule compareValues_text)
next
  assume ne: "policyValues \<noteq> []"
  let ?compare = "toLowerCase (orDefault (cmp_compare cmp) ''equals'')"
  let ?valueType = "toLowerCase (orDefault (cmp_valueType cmp) ''auto'')"
  let ?severity = "normalizeSeverity (cmp_severity cmp) logicDrift"
  let ?label = "orDefault (cmp_name cmp) (orDefault (cmp_label cmp) ruleName)"
  have run: "compareExtracted rt cmp logicDrift ruleName fileName codeValues policyValues st
             = fold (\<lambda>codeValue s. mismatchStep rt ?compare ?valueType ?severity ruleName fileName
                                      ?label policyValues s codeValue) codeValues st"
    using ne by (simp add: compareExtracted_def Let_def)
  have sat: "\<And>v. (\<not> satisfied rt ?compare ?valueType policyValues v)
                  = (\<forall>p \<in> set policyValues. \<not> compareValues rt v p ?compare ?valueType)"
    by (simp add: satisfied_def list_ex_iff)
  from mismatch_fold[of rt ?compare ?valueType ?severity ruleName fileName ?label policyValues
                        codeValues st]
  show "\<exists>new. cs_results (compareExtracted rt cmp logicDrift ruleName fileName codeValues policyValues st)
               = cs_results st @ new
            \<and> set new =
                mismatchFinding ?severity ruleName fileName ?label policyValues
                ` {v \<in> set codeValues.
                     (\<forall>p \<in> set policyValues. \<not> compareValues rt v p ?compare ?valueType)
                     \<and> mismatchKey ?label v policyValues \<notin> cs_seen st}"
    unfolding run sat by blast
qed


theorem compareValues_semantics_witness:
  "compareValues exampleRuntime ''7'' ''30'' ''lte'' ''auto''
   \<and> \<not> compareValues exampleRuntime ''7'' ''30'' ''equals'' ''auto''
   \<and> compareValues exampleRuntime ''Net 30'' ''net 30 days'' ''contains'' ''auto''
   \<and> runDeterministicComparisons exampleRuntime
        [\<lparr> cmp_codePattern = Some (PatString ''7''), cmp_policyPattern = Some (PatString ''30''),
           cmp_codeFlags = [], cmp_policyFlags = [], cmp_compare = ''lte'', cmp_valueType = [],
           cmp_severity = [], cmp_name = ''retention'', cmp_label = [] \<rparr>]
        ''+const RETENTION_DAYS = 7;'' ''Data is kept for 30 days.'' ''error'' ''retention'' ''src/a.js''
      = Some (Inr [])
   \<and> map_option (map_sum id (map f_type))
        (runDeterministicComparisons exampleRuntime
          [\<lparr> cmp_codePattern = Some (PatString ''7''), cmp_policyPattern = Some (PatString ''30''),
             cmp_codeFlags = [], cmp_policyFlags = [], cmp_compare = ''equals'', cmp_valueType = [],
             cmp_severity = [], cmp_name = ''retention'', cmp_label = [] \<rparr>]
          ''+const RETENTION_DAYS = 7;'' ''Data is kept for 30 days.'' ''error'' ''retention'' ''src/a.js'')
      = Some (Inr [''policy-value-mismatch''])"
proof -
  have c: "parseNumber exampleRuntime ''7'' = Finite 7" by code_simp
  have p: "parseNumber exampleRuntime ''30'' = Finite 30" by code_simp
  have t: "\<not> isFinite (parseNumber exampleRuntime ''Net 30'')" by code_simp
  have lower: "toLowerCase (trim ''Net 30'') = ''net 30''"
              "toLowerCase (trim ''net 30 days'') = ''net 30 days''" by code_simp+
  have "compareValues exampleRuntime ''7'' ''30'' ''lte'' ''auto''"
    using compareValues_semantics[of "''auto''" exampleRuntime "''7''" 7 "''30''" 30 "''lte''"] c p
    by simp
  moreover have "\<not> compareValues exampleRuntime ''7'' ''30'' ''equals'' ''auto''"
    using compareValues_semantics[of "''auto''" exampleRuntime "''7''" 7 "''30''" 30 "''equals''"] c p
    by simp
  moreover have "compareValues exampleRuntime ''Net 30'' ''net 30 days'' ''contains'' ''auto''"
  proof -
    have "''net 30 days'' = [] @ ''net 30'' @ '' days''" by simp
    then have "\<exists>pre post. ''net 30 days'' = pre @ ''net 30'' @ post" by blast
    then show ?thesis
      using compareValues_semantics[of "''auto''" exampleRuntime "''Net 30''" _ "''net 30 days''" _
                                       "''contains''"] t
      by (simp add: lower del: append.simps)
  qed
  moreover have "runDeterministicComparisons exampleRuntime
        [\<lparr> cmp_codePattern = Some (PatString ''7''), cmp_policyPattern = Some (PatString ''30''),
           cmp_codeFlags = [], cmp_policyFlags = [], cmp_compare = ''lte'', cmp_valueType = [],
           cmp_severity = [], cmp_name = ''retention'', cmp_label = [] \<rparr>]
        ''+const RETENTION_DAYS = 7;'' ''Data is kept for 30 days.'' ''error'' ''retention'' ''src/a.js''
      = Some (Inr [])"
    by code_simp
  moreover have "map_option (map_sum id (map f_type))
        (runDeterministicComparisons exampleRuntime
          [\<lparr> cmp_codePattern = Some (PatString ''7''), cmp_policyPattern = Some (PatString ''30''),
             cmp_codeFlags = [], cmp_policyFlags = [], cmp_compare = ''equals'', cmp_valueType = [],
             cmp_severity = [], cmp_name = ''retention'', cmp_label = [] \<rparr>]
          ''+const RETENTION_DAYS = 7;'' ''Data is kept for 30 days.'' ''error'' ''retention'' ''src/a.js'')
      = Some (Inr [''policy-value-mismatch''])"
    by code_simp
  ultimately show ?thesis by blast
qed

text \<open>
  Claim C3 as stated fails in two places. With the value type \<open>string\<close> the values
  \<open>07\<close> and \<open>7\<close>, which both parse as the number 7, are compared as texts and are not
  equal. And when no policy value is extracted, a code value fails against every
  policy value, but the finding is \<open>policy-value-missing\<close>, not \<open>policy-value-mismatch\<close>.
\<close>

theorem compareValues_numeric_counterexample:
  "parseNumber exampleRuntime ''07'' = Finite 7
   \<and> parseNumber exampleRuntime ''7'' = Finite 7
   \<and> \<not> compareValues exampleRuntime ''07'' ''7'' ''equals'' ''string''
   \<and> compareValues exampleRuntime ''07'' ''7'' ''equals'' ''auto''
   \<and> extractMatches exampleRuntime ''Data is kept for one month.''
        (Some \<lparr> rx_source = ''30'', rx_flags = ''g'', rx_lastIndex = 0 \<rparr>) = Some []
   \<and> map_option (map_sum id (map f_type))
        (runDeterministicComparisons exampleRuntime
          [\<lparr> cmp_codePattern = Some (PatString ''7''), cmp_policyPattern = Some (PatString ''30''),
             cmp_codeFlags = [], cmp_policyFlags = [], cmp_compare = ''equals'', cmp_valueType = [],
             cmp_severity = [], cmp_name = ''retention'', cmp_label = [] \<rparr>]
          ''+const RETENTION_DAYS = 7;'' ''Data is kept for one month.'' ''error'' ''retention''
          ''src/a.js'')
      = Some (Inr [''policy-value-missing''])"
  by code_simp

section \<open>A comparison with no policy value\<close>

text \<open>
  Claim C6, as amended. When the patterns of a comparison are built and the code
  pattern extracts the values \<open>codeValues\<close> from the diff while the policy pattern
  extracts nothing from the policy text, the iteration returns; it appends one
  \<open>policy-value-missing\<close> finding, unless \<open>codeValues\<close> is empty (the comparison is
  skipped) or the key \<open>label:missing:codeValues\<close> was seen before in this run.
\<close>

theorem policy_value_missing_emitted:
  assumes "truthyPattern (cmp_codePattern cmp) = Some codePattern"
      and "truthyPattern (cmp_policyPattern cmp) = Some policyPattern"
      and "buildRegex rt codePattern (cmp_codeFlags cmp) = Inr codeRegex"
      and "buildRegex rt policyPattern (cmp_policyFlags cmp) = Inr policyRegex"
      and "extractMatches rt diffText codeRegex = Some codeValues"
      and "extractMatches rt policyText policyRegex = Some []"
  shows "comparisonStep rt diffText policyText logicDrift ruleName fileName st cmp =
           Some (Inr (if codeValues = []
                         \<or> orDefault (cmp_name cmp) (orDefault (cmp_label cmp) ruleName)
                              @ '':missing:'' @ join '','' codeValues \<in> cs_seen st
                      then st
                      else \<lparr> cs_results = cs_results st @
                               [missingFinding (normalizeSeverity (cmp_severity cmp) logicDrift)
                                  ruleName fileName
                                  (orDefault (cmp_name cmp) (orDefault (cmp_label cmp) ruleName))
                                  codeValues],
                             cs_seen = insert (orDefault (cmp_name cmp) (orDefault (cmp_label cmp) ruleName)
                                                 @ '':missing:'' @ join '','' codeValues)
                                              (cs_seen st) \<rparr>))"
  using assms by (simp add: comparisonStep_def compareExtracted_def Let_def)

theorem policy_value_missing_emitted_witness:
  "comparisonStep exampleRuntime ''+const RETENTION_DAYS = 7;'' ''Data is kept for one month.''
     ''error'' ''retention'' ''src/a.js'' \<lparr> cs_results = [], cs_seen = {} \<rparr>
     \<lparr> cmp_codePattern = Some (PatString ''7''), cmp_policyPattern = Some (PatString ''30''),
       cmp_codeFlags = [], cmp_policyFlags = [], cmp_compare = ''equals'', cmp_valueType = [],
       cmp_severity = [], cmp_name = ''retention'', cmp_label = [] \<rparr>
   = Some (Inr \<lparr> cs_results =
                  [missingFinding ''error'' ''retention'' ''src/a.js'' ''retention'' [''7'']],
                cs_seen = {''retention:missing:7''} \<rparr>)"
proof -
  let ?cmp = "\<lparr> cmp_codePattern = Some (PatString ''7''), cmp_policyPattern = Some (PatString ''30''),
       cmp_codeFlags = [], cmp_policyFlags = [], cmp_compare = ''equals'', cmp_valueType = [],
       cmp_severity = [], cmp_name = ''retention'', cmp_label = [] \<rparr>"
  let ?code = "Some \<lparr> rx_source = ''7'', rx_flags = ''g'', rx_lastIndex = 0 \<rparr>"
  let ?policy = "Some \<lparr> rx_source = ''30'', rx_flags = ''g'', rx_lastIndex = 0 \<rparr>"
  have 1: "truthyPattern (cmp_codePattern ?cmp) = Some (PatString ''7'')" by code_simp
  have 2: "truthyPattern (cmp_policyPattern ?cmp) = Some (PatString ''30'')" by code_simp
  have 3: "buildRegex exampleRuntime (PatString ''7'') (cmp_codeFlags ?cmp) = Inr ?code" by code_simp
  have 4: "buildRegex exampleRuntime (PatString ''30'') (cmp_policyFlags ?cmp) = Inr ?policy" by code_simp
  have 5: "extractMatches exampleRuntime ''+const RETENTION_DAYS = 7;'' ?code = Some [''7'']" by code_simp
  have 6: "extractMatches exampleRuntime ''Data is kept for one month.'' ?policy = Some []" by code_simp
  have sev: "normalizeSeverity (cmp_severity ?cmp) ''error'' = ''error''" by code_simp
  have label: "orDefault (cmp_name ?cmp) (orDefault (cmp_label ?cmp) ''retention'') = ''retention''"
    by code_simp
  show ?thesis
    using policy_value_missing_emitted[OF 1 2 3 4 5 6, of "''error''" "''retention''" "''src/a.js''"
                                          "\<lparr> cs_results = [], cs_seen = {} \<rparr>"]
    unfolding sev label by simp
qed

text \<open>
  Claim C6 as stated fails when the diff has no code value: the comparison below
  extracts nothing from the policy text, and no finding is emitted.
\<close>

theorem policy_value_missing_counterexample:
  "extractMatches exampleRuntime ''Data is kept for one month.''
        (Some \<lparr> rx_source = ''30'', rx_flags = ''g'', rx_lastIndex = 0 \<rparr>) = Some []
   \<and> extractMatches exampleRuntime ''+const TIMEOUT = 5;''
        (Some \<lparr> rx_source = ''7'', rx_flags = ''g'', rx_lastIndex = 0 \<rparr>) = Some []
   \<and> runDeterministicComparisons exampleRuntime
        [\<lparr> cmp_codePattern = Some (PatString ''7''), cmp_policyPattern = Some (PatString ''30''),
           cmp_codeFlags = [], cmp_policyFlags = [], cmp_compare = ''equals'', cmp_valueType = [],
           cmp_severity = [], cmp_name = ''retention'', cmp_label = [] \<rparr>]
        ''+const TIMEOUT = 5;'' ''Data is kept for one month.'' ''error'' ''retention'' ''src/a.js''
      = Some (Inr [])"
  by code_simp

section \<open>Rename candidates of a diff\<close>

lemma uniqueKeys_fold:
  "set (fold (\<lambda>k acc. if k \<in> set acc then acc else acc @ [k]) keys acc0) = set acc0 \<union> set keys
   \<and> (distinct acc0 \<longrightarrow> distinct (fold (\<lambda>k acc. if k \<in> set acc then acc else acc @ [k]) keys acc0))"
  by (induction keys arbitrary: acc0) auto

lemma set_uniqueKeys: "set (uniqueKeys keys) = set keys"
  using uniqueKeys_fold[of keys "[]"] by (simp add: uniqueKeys_def)

lemma distinct_uniqueKeys: "distinct (uniqueKeys keys)"
  using uniqueKeys_fold[of keys "[]"] by (simp add: uniqueKeys_def)

lemma uniqueKeys_singleton: "uniqueKeys keys = [k] \<longleftrightarrow> set keys = {k}"
proof
  assume "uniqueKeys keys = [k]"
  then show "set keys = {k}" using set_uniqueKeys[of keys] by simp
next
  assume s: "set keys = {k}"
  have d: "distinct (uniqueKeys keys)" by (rule distinct_uniqueKeys)
  have e: "set (uniqueKeys keys) = {k}" using s by (simp add: set_uniqueKeys)
  show "uniqueKeys keys = [k]"
  proof (cases "uniqueKeys keys")
    case Nil
    then show ?thesis using e by simp
  next
    case (Cons x xs)
    then have "x = k" using e by auto
    moreover have "xs = []"
    proof (cases xs)
      case Nil
      then show ?thesis .
    next
      case (Cons y ys)
      then have "y = k" "y \<noteq> x" using e d \<open>uniqueKeys keys = x # xs\<close> by auto
      then show ?thesis using \<open>x = k\<close> by simp
    qed
    ultimately show ?thesis using Cons by simp
  qed
qed

lemma matchesAllowlist_iff:
  "matchesAllowlist rt key allowlist
   \<longleftrightarrow> allowlist = [] \<or> (\<exists>m \<in> set allowlist. matcherTest rt m key)"
  by (auto simp: matchesAllowlist_def list_ex_iff)

lemma hunkRenames_candidate:
  "isRenameCandidate rt allowlist removed added old new \<Longrightarrow>
   hunkRenames rt allowlist removed added = [\<lparr> oldKey = old, newKey = new \<rparr>]"
proof -
  assume c: "isRenameCandidate rt allowlist removed added old new"
  then have u: "uniqueKeys removed = [old]" "uniqueKeys added = [new]"
    by (simp_all add: isRenameCandidate_def uniqueKeys_singleton)
  have ne: "removed \<noteq> []" using c by (auto simp: isRenameCandidate_def)
  have m: "matchesAllowlist rt old allowlist \<or> matchesAllowlist rt new allowlist"
    using c by (auto simp: isRenameCandidate_def matchesAllowlist_iff)
  have "old \<noteq> new" using c by (simp add: isRenameCandidate_def)
  then show ?thesis using u ne m by (simp add: hunkRenames_def finalizeHunk_def)
qed

lemma hunkRenames_member:
  "r \<in> set (hunkRenames rt allowlist removed added)
   \<longleftrightarrow> isRenameCandidate rt allowlist removed added (oldKey r) (newKey r)"
proof
  assume "isRenameCandidate rt allowlist removed added (oldKey r) (newKey r)"
  then show "r \<in> set (hunkRenames rt allowlist removed added)"
    using hunkRenames_candidate by fastforce
next
  assume r: "r \<in> set (hunkRenames rt allowlist removed added)"
  then have ne: "\<not> (removed = [] \<and> added = [])"
    by (auto simp: hunkRenames_def finalizeHunk_def)
  from r ne obtain old new where u: "uniqueKeys removed = [old]" "uniqueKeys added = [new]"
      and c: "old \<noteq> new" "matchesAllowlist rt old allowlist \<or> matchesAllowlist rt new allowlist"
      and rr: "r = \<lparr> oldKey = old, newKey = new \<rparr>"
    by (auto simp: hunkRenames_def finalizeHunk_def Let_def split: list.splits if_splits)
  show "isRenameCandidate rt allowlist removed added (oldKey r) (newKey r)"
    using u c rr by (auto simp: isRenameCandidate_def uniqueKeys_singleton matchesAllowlist_iff)
qed

lemma finalizeHunk_hunkRenames:
  "finalizeHunk rt allowlist st =
     \<lparr> hs_renames = hs_renames st @ hunkRenames rt allowlist (hs_removed st) (hs_added st),
       hs_removed = [], hs_added = [] \<rparr>"
  by (cases st)
     (auto simp: hunkRenames_def finalizeHunk_def Let_def split: list.splits)

lemma hunksOf_nonempty: "hunksOf ls \<noteq> []"
  by (induction ls) (auto split: list.splits)

lemma diffLineStep_plain:
  "\<not> startsWith line ''@@'' \<Longrightarrow>
   diffLineStep rt allowlist st line =
     st\<lparr> hs_removed := hs_removed st @ removedKeys line, hs_added := hs_added st @ addedKeys line \<rparr>"
  by (cases line) (auto simp: diffLineStep_def removedKeys_def addedKeys_def startsWith_def)


lemma renames_of_lines:
  "hs_renames (finalizeHunk rt allowlist
      (fold (\<lambda>line st. diffLineStep rt allowlist st line) ls st))
   = hs_renames st
     @ hunkRenames rt allowlist (hs_removed st @ removedTokens (hd (hunksOf ls)))
                                (hs_added st @ addedTokens (hd (hunksOf ls)))
     @ concat (map (\<lambda>hunk. hunkRenames rt allowlist (removedTokens hunk) (addedTokens hunk))
                   (tl (hunksOf ls)))"
proof (induction ls arbitrary: st)
  case Nil
  show ?case
    by (simp add: finalizeHunk_hunkRenames[of rt allowlist st] removedTokens_def addedTokens_def)
next
  case (Cons l ls)
  obtain g gs where h: "hunksOf ls = g # gs"
    using hunksOf_nonempty[of ls] by (cases "hunksOf ls") auto
  show ?case
  proof (cases "startsWith l ''@@''")
    case True
    let ?st1 = "finalizeHunk rt allowlist st"
    have step: "diffLineStep rt allowlist st l = ?st1" using True by (simp add: diffLineStep_def)
    have st1: "hs_renames ?st1 = hs_renames st @ hunkRenames rt allowlist (hs_removed st) (hs_added st)"
        "hs_removed ?st1 = []" "hs_added ?st1 = []"
      by (simp_all add: finalizeHunk_hunkRenames[of rt allowlist st])
    have hs: "hunksOf (l # ls) = [] # g # gs" using True h by simp
    show ?thesis
      using Cons[of ?st1] unfolding fold_simps step hs h st1
      by (simp add: removedTokens_def addedTokens_def)
  next
    case False
    let ?st1 = "st\<lparr> hs_removed := hs_removed st @ removedKeys l,
                     hs_added := hs_added st @ addedKeys l \<rparr>"
    have step: "diffLineStep rt allowlist st l = ?st1" using False by (rule diffLineStep_plain)
    have hs: "hunksOf (l # ls) = (l # g) # gs" using False h by simp
    show ?thesis
      using Cons[of ?st1] unfolding fold_simps step hs h
      by (simp add: removedTokens_def addedTokens_def)
  qed
qed

lemma findPayloadKeyRenames_hunks:
  "findPayloadKeyRenames rt diffText allowlist
   = concat (map (\<lambda>hunk. hunkRenames rt allowlist (removedTokens hunk) (addedTokens hunk))
                 (hunksOf (splitChar CHR 0x0A diffText)))"
proof -
  obtain g gs where h: "hunksOf (splitChar CHR 0x0A diffText) = g # gs"
    using hunksOf_nonempty[of "splitChar CHR 0x0A diffText"]
    by (cases "hunksOf (splitChar CHR 0x0A diffText)") auto
  show ?thesis
    unfolding findPayloadKeyRenames_def renames_of_lines h by simp
qed

lemma findPayloadKeyRenames_member:
  "r \<in> set (findPayloadKeyRenames rt diffText allowlist)
   \<longleftrightarrow> (\<exists>hunk \<in> set (hunksOf (splitChar CHR 0x0A diffText)).
         isRenameCandidate rt allowlist (removedTokens hunk) (addedTokens hunk) (oldKey r) (newKey r))"
  by (simp add: findPayloadKeyRenames_hunks hunkRenames_member)


text \<open>
  Claim C10. With an empty compiled allowlist \<open>matchesAllowlist\<close> accepts every key
  (and no entry compiles to the empty allowlist), so \<open>findPayloadKeyRenames\<close> returns the
  rename from \<open>old\<close> to \<open>new\<close> exactly when a hunk has the one removed token \<open>old\<close> and
  the one added token \<open>new\<close> and the two differ.
\<close>

theorem empty_allowlist_accepts_every_key:
  "matchesAllowlist rt key []
   \<and> compileAllowlist rt [] = Inr []
   \<and> (r \<in> set (findPayloadKeyRenames rt diffText [])
        \<longleftrightarrow> (\<exists>hunk \<in> set (hunksOf (splitChar CHR 0x0A diffText)).
               set (removedTokens hunk) = {oldKey r} \<and> set (addedTokens hunk) = {newKey r}
               \<and> oldKey r \<noteq> newKey r))"
proof (intro conjI)
  show "matchesAllowlist rt key []" by (simp add: matchesAllowlist_def)
  show "compileAllowlist rt [] = Inr []" by (simp add: compileAllowlist_def)
  show "r \<in> set (findPayloadKeyRenames rt diffText [])
        \<longleftrightarrow> (\<exists>hunk \<in> set (hunksOf (splitChar CHR 0x0A diffText)).
               set (removedTokens hunk) = {oldKey r} \<and> set (addedTokens hunk) = {newKey r}
               \<and> oldKey r \<noteq> newKey r)"
    using findPayloadKeyRenames_member[of r rt diffText "[]"]
    by (simp add: isRenameCandidate_def)
qed



lemma exampleDiff_empty_allowlist:
  "findPayloadKeyRenames exampleRuntime exampleDiff [] = [\<lparr> oldKey = ''user_id'', newKey = ''uid'' \<rparr>]"
  by code_simp



theorem empty_allowlist_accepts_every_key_witness:
  "matchesAllowlist exampleRuntime ''uid'' []
   \<and> (\<exists>hunk \<in> set (hunksOf (splitChar CHR 0x0A exampleDiff)).
         set (removedTokens hunk) = {''user_id''} \<and> set (addedTokens hunk) = {''uid''})
   \<and> \<lparr> oldKey = ''user_id'', newKey = ''uid'' \<rparr>
       \<in> set (findPayloadKeyRenames exampleRuntime exampleDiff [])"
proof -
  let ?r = "\<lparr> oldKey = ''user_id'', newKey = ''uid'' \<rparr>"
  note inst = empty_allowlist_accepts_every_key[of exampleRuntime "''uid''" ?r exampleDiff]
  have m: "?r \<in> set (findPayloadKeyRenames exampleRuntime exampleDiff [])"
    unfolding exampleDiff_empty_allowlist by simp
  from iffD1[OF conjunct2[OF conjunct2[OF inst]], OF m]
  have "\<exists>hunk \<in> set (hunksOf (splitChar CHR 0x0A exampleDiff)).
         set (removedTokens hunk) = {''user_id''} \<and> set (addedTokens hunk) = {''uid''}"
    unfolding rename.simps by blast
  then show ?thesis using m conjunct1[OF inst] by blast
qed

section \<open>What the extraction rules deduplicate\<close>









end
